theory Spec2Isabelle
  imports Main "HOL-Library.Word" "HOL-Library.Signed_Division"
begin

section \<open>Action protocol (pkg/protocol/actions.go)\<close>

text \<open>
  Go's \<^verbatim>\<open>int\<close> is a 64-bit two's complement integer on the platforms the program
  targets; it is modelled as a 64-bit word. Go strings are byte strings.
\<close>

type_synonym go_int = "64 word"

text \<open>\<^verbatim>\<open>type ActionType string\<close> and its nine constants.\<close>

type_synonym ActionType = string

definition ActionClick :: ActionType where "ActionClick = ''click''"
definition ActionType' :: ActionType where "ActionType' = ''type''"
definition ActionKey :: ActionType where "ActionKey = ''key''"
definition ActionScroll :: ActionType where "ActionScroll = ''scroll''"
definition ActionFileRead :: ActionType where "ActionFileRead = ''file_read''"
definition ActionFileWrite :: ActionType where "ActionFileWrite = ''file_write''"
definition ActionWait :: ActionType where "ActionWait = ''wait''"
definition ActionDone :: ActionType where "ActionDone = ''done''"
definition ActionFailed :: ActionType where "ActionFailed = ''failed''"

lemmas ActionType_defs =
  ActionClick_def ActionType'_def ActionKey_def ActionScroll_def ActionFileRead_def
  ActionFileWrite_def ActionWait_def ActionDone_def ActionFailed_def

record Action =
  Type :: ActionType
  X :: go_int
  Y :: go_int
  Button :: string
  Double :: bool
  Text :: string
  Key :: string
  Direction :: string
  Amount :: go_int
  Path :: string
  Content :: string
  Ms :: go_int
  Summary :: string
  Reason :: string

record ValidationError =
  Field :: string
  Message :: string

text \<open>
  \<^verbatim>\<open>func (a *Action) Validate() error\<close> mutates the action through its pointer
  receiver and returns an error or nil: the model returns the action as it is after the
  call, paired with the error. The branches are in the order of the source's switch.
\<close>

definition Validate :: "Action \<Rightarrow> Action \<times> ValidationError option" where
  "Validate a =
    (if Type a = ActionClick then
       (if Button a = '''' then (a\<lparr>Button := ''left''\<rparr>, None) else (a, None))
     else if Type a = ActionType' then
       (if Text a = ''''
        then (a, Some \<lparr>Field = ''text'', Message = ''text is required for type action''\<rparr>)
        else (a, None))
     else if Type a = ActionKey then
       (if Key a = ''''
        then (a, Some \<lparr>Field = ''key'', Message = ''key is required for key action''\<rparr>)
        else (a, None))
     else if Type a = ActionScroll then
       (if Direction a = ''''
        then (a, Some \<lparr>Field = ''direction'',
                        Message = ''direction is required for scroll action''\<rparr>)
        else if Amount a = 0 then (a\<lparr>Amount := 3\<rparr>, None) else (a, None))
     else if Type a = ActionFileRead then
       (if Path a = ''''
        then (a, Some \<lparr>Field = ''path'', Message = ''path is required for file_read action''\<rparr>)
        else (a, None))
     else if Type a = ActionFileWrite then
       (if Path a = ''''
        then (a, Some \<lparr>Field = ''path'', Message = ''path is required for file_write action''\<rparr>)
        else (a, None))
     else if Type a = ActionWait then
       (if Ms a = 0 then (a\<lparr>Ms := 500\<rparr>, None) else (a, None))
     else if Type a = ActionDone then (a, None)
     else if Type a = ActionFailed then
       (if Reason a = ''''
        then (a, Some \<lparr>Field = ''reason'', Message = ''reason is required for failed action''\<rparr>)
        else (a, None))
     else (a, Some \<lparr>Field = ''type'', Message = ''unknown action type: '' @ Type a\<rparr>))"

text \<open>\<^verbatim>\<open>func (e *ValidationError) Error() string\<close>\<close>

definition ValidationError_Error :: "ValidationError \<Rightarrow> string" where
  "ValidationError_Error e = Message e"


section \<open>Go library functions on byte strings\<close>

text \<open>
  The functions of Go's \<^verbatim>\<open>strings\<close> package that the parser and the executor call,
  on byte strings. \<^verbatim>\<open>strings.Index\<close> gives the first byte offset of a substring or
  \<open>-1\<close>, \<^verbatim>\<open>strings.LastIndex\<close> the last one (the length for the empty substring).
\<close>

definition strings_HasPrefix :: "string \<Rightarrow> string \<Rightarrow> bool" where
  "strings_HasPrefix s p = (length p \<le> length s \<and> take (length p) s = p)"

definition strings_HasSuffix :: "string \<Rightarrow> string \<Rightarrow> bool" where
  "strings_HasSuffix s p =
     (length p \<le> length s \<and> drop (length s - length p) s = p)"

definition strings_TrimPrefix :: "string \<Rightarrow> string \<Rightarrow> string" where
  "strings_TrimPrefix s p = (if strings_HasPrefix s p then drop (length p) s else s)"

definition strings_TrimSuffix :: "string \<Rightarrow> string \<Rightarrow> string" where
  "strings_TrimSuffix s p =
     (if strings_HasSuffix s p then take (length s - length p) s else s)"

fun strings_Index :: "string \<Rightarrow> string \<Rightarrow> int" where
  "strings_Index [] sub = (if sub = [] then 0 else - 1)"
| "strings_Index (c # cs) sub =
     (if strings_HasPrefix (c # cs) sub then 0
      else (let r = strings_Index cs sub in if r < 0 then - 1 else r + 1))"

fun strings_LastIndex :: "string \<Rightarrow> string \<Rightarrow> int" where
  "strings_LastIndex [] sub = (if sub = [] then 0 else - 1)"
| "strings_LastIndex (c # cs) sub =
     (let r = strings_LastIndex cs sub in
      if 0 \<le> r then r + 1
      else if strings_HasPrefix (c # cs) sub then 0 else - 1)"

definition strings_Contains :: "string \<Rightarrow> string \<Rightarrow> bool" where
  "strings_Contains s sub = (0 \<le> strings_Index s sub)"

text \<open>
  \<^verbatim>\<open>strings.TrimSpace\<close> removes leading and trailing white space as Unicode defines
  it. On UTF-8 bytes these are the encodings of U+0009..U+000D, U+0020, U+0085, U+00A0,
  U+1680, U+2000..U+200A, U+2028, U+2029, U+202F, U+205F and U+3000.
\<close>

definition utf8_spaces :: "string list" where
  "utf8_spaces =
     [[CHR 0x09], [CHR 0x0A], [CHR 0x0B], [CHR 0x0C], [CHR 0x0D], [CHR 0x20],
      [CHR 0xC2, CHR 0x85], [CHR 0xC2, CHR 0xA0], [CHR 0xE1, CHR 0x9A, CHR 0x80],
      [CHR 0xE2, CHR 0x80, CHR 0x80], [CHR 0xE2, CHR 0x80, CHR 0x81],
      [CHR 0xE2, CHR 0x80, CHR 0x82], [CHR 0xE2, CHR 0x80, CHR 0x83],
      [CHR 0xE2, CHR 0x80, CHR 0x84], [CHR 0xE2, CHR 0x80, CHR 0x85],
      [CHR 0xE2, CHR 0x80, CHR 0x86], [CHR 0xE2, CHR 0x80, CHR 0x87],
      [CHR 0xE2, CHR 0x80, CHR 0x88], [CHR 0xE2, CHR 0x80, CHR 0x89],
      [CHR 0xE2, CHR 0x80, CHR 0x8A], [CHR 0xE2, CHR 0x80, CHR 0xA8],
      [CHR 0xE2, CHR 0x80, CHR 0xA9], [CHR 0xE2, CHR 0x80, CHR 0xAF],
      [CHR 0xE2, CHR 0x81, CHR 0x9F], [CHR 0xE3, CHR 0x80, CHR 0x80]]"

text \<open>The white-space encoding a string starts with, if any.\<close>

definition leading_space :: "string \<Rightarrow> string option" where
  "leading_space s = find (strings_HasPrefix s) utf8_spaces"

definition trailing_space :: "string \<Rightarrow> string option" where
  "trailing_space s = find (strings_HasSuffix s) utf8_spaces"

lemma find_utf8_spaces_nonempty:
  "find P utf8_spaces = Some p \<Longrightarrow> p \<noteq> []"
  by (auto simp: utf8_spaces_def split: if_splits)

function trim_left :: "string \<Rightarrow> string" where
  "trim_left s =
     (case leading_space s of
        None \<Rightarrow> s
      | Some p \<Rightarrow> trim_left (drop (length p) s))"
  by pat_completeness auto
termination
proof (relation "measure length")
  show "wf (measure length)" by simp
next
  fix s :: string and p :: string
  assume sp: "leading_space s = Some p"
  then have "p \<noteq> []"
    unfolding leading_space_def by (rule find_utf8_spaces_nonempty)
  moreover from sp have "strings_HasPrefix s p"
    unfolding leading_space_def by (auto simp: find_Some_iff)
  ultimately show "(drop (length p) s, s) \<in> measure length"
    by (cases s) (auto simp: strings_HasPrefix_def)
qed

declare trim_left.simps [simp del]

function trim_right :: "string \<Rightarrow> string" where
  "trim_right s =
     (case trailing_space s of
        None \<Rightarrow> s
      | Some p \<Rightarrow> trim_right (take (length s - length p) s))"
  by pat_completeness auto
termination
proof (relation "measure length")
  show "wf (measure length)" by simp
next
  fix s :: string and p :: string
  assume sp: "trailing_space s = Some p"
  then have "p \<noteq> []"
    unfolding trailing_space_def by (rule find_utf8_spaces_nonempty)
  moreover from sp have "strings_HasSuffix s p"
    unfolding trailing_space_def by (auto simp: find_Some_iff)
  ultimately show "(take (length s - length p) s, s) \<in> measure length"
    by (cases s) (auto simp: strings_HasSuffix_def)
qed

declare trim_right.simps [simp del]

definition strings_TrimSpace :: "string \<Rightarrow> string" where
  "strings_TrimSpace s = trim_right (trim_left s)"

text \<open>
  The \<^verbatim>\<open>%d\<close> verb of Go's \<^verbatim>\<open>fmt\<close> package writes an integer in decimal: the
  digits of its absolute value, most significant first and with no leading zero, after
  a minus sign when it is negative.
\<close>

definition digit_char :: "nat \<Rightarrow> char" where
  "digit_char d = char_of (48 + d)"

function decimal_nat :: "nat \<Rightarrow> string" where
  "decimal_nat n =
     (if n < 10 then [digit_char n] else decimal_nat (n div 10) @ [digit_char (n mod 10)])"
  by pat_completeness auto
termination
  by (relation "measure id") auto

declare decimal_nat.simps [simp del]

definition fmt_d :: "int \<Rightarrow> string" where
  "fmt_d k = (if k < 0 then CHR ''-'' # decimal_nat (nat (- k)) else decimal_nat (nat k))"

section \<open>Response parser (internal/llm/parser.go)\<close>

text \<open>\<^verbatim>\<open>response[start : end+1]\<close> with \<open>0 \<le> start < end < len(response)\<close>.\<close>

definition slice :: "string \<Rightarrow> int \<Rightarrow> int \<Rightarrow> string" where
  "slice s lo hi = drop (nat lo) (take (nat hi) s)"

definition cleanResponse :: "string \<Rightarrow> string" where
  "cleanResponse response0 =
     (let response1 = strings_TrimSpace response0;
          response2 =
            (if strings_HasPrefix response1 ''```json''
             then strings_TrimPrefix response1 ''```json''
             else if strings_HasPrefix response1 ''```''
             then strings_TrimPrefix response1 ''```''
             else response1);
          response3 =
            (if strings_HasSuffix response2 ''```''
             then strings_TrimSuffix response2 ''```''
             else response2);
          response4 = strings_TrimSpace response3;
          start = strings_Index response4 ''{'';
          end = strings_LastIndex response4 ''}''
      in if 0 \<le> start \<and> start < end then slice response4 start (end + 1)
         else response4)"

text \<open>\<^verbatim>\<open>truncate\<close> is only called with the constant 200.\<close>

definition truncate :: "string \<Rightarrow> nat \<Rightarrow> string" where
  "truncate s maxLen = (if length s \<le> maxLen then s else take maxLen s @ ''...'')"

text \<open>
  \<^verbatim>\<open>json.Unmarshal\<close> belongs to Go's standard library: it is a parameter, giving
  the error text or the decoded action. An error is modelled by its message.
\<close>

type_synonym go_error = string

definition ParseAction :: "(string \<Rightarrow> go_error + Action) \<Rightarrow> string \<Rightarrow> go_error + Action" where
  "ParseAction json_Unmarshal response =
     (let cleaned = cleanResponse response in
      case json_Unmarshal cleaned of
        Inl err \<Rightarrow>
          Inl (''failed to parse action JSON: '' @ err @ [CHR 0x0A] @ ''Response was: ''
               @ truncate response 200)
      | Inr action \<Rightarrow>
          (case Validate action of
             (_, Some verr) \<Rightarrow> Inl (''invalid action: '' @ ValidationError_Error verr)
           | (action', None) \<Rightarrow> Inr action'))"

section \<open>History rendering for the decision oracle (internal/llm/prompt.go)\<close>

record ActionRecord =
  rType :: string
  rX :: go_int
  rY :: go_int
  rButton :: string
  rDouble :: bool
  rText :: string
  rKey :: string
  rDirection :: string
  rAmount :: go_int
  rPath :: string
  rContent :: string
  rMs :: go_int
  rSummary :: string
  rReason :: string

record HistoryEntry =
  hAction :: ActionRecord
  hError :: string

text \<open>
  Go's \<^verbatim>\<open>/\<close> and \<^verbatim>\<open>%\<close> on \<^verbatim>\<open>int\<close> truncate towards zero and wrap around;
  \<^verbatim>\<open>-n\<close> wraps around too (word negation).
\<close>

definition go_quo :: "go_int \<Rightarrow> go_int \<Rightarrow> go_int" where
  "go_quo a b = word_of_int (sint a sdiv sint b)"

definition go_rem :: "go_int \<Rightarrow> go_int \<Rightarrow> go_int" where
  "go_rem a b = word_of_int (sint a smod sint b)"

text \<open>\<^verbatim>\<open>byte(x)\<close> keeps the low eight bits.\<close>

definition byte :: "go_int \<Rightarrow> char" where
  "byte x = char_of (uint x)"

lemma sint_word_of_int_64:
  "- (2 ^ 63) \<le> k \<Longrightarrow> k < 2 ^ 63 \<Longrightarrow> sint (word_of_int k :: go_int) = k"
  by (simp add: sint_sbintrunc' signed_take_bit_int_eq_self)

lemma sint_go_quo_10:
  assumes "0 <s n"
  shows "sint (go_quo n 10) = sint n div 10"
proof -
  from assms have pos: "0 < sint n" by (simp add: word_sless_alt)
  have up: "sint n < 2 ^ 63" using sint_lt [of n] by simp
  from pos have q: "sint n sdiv 10 = sint n div 10"
    by (simp add: signed_divide_int_def sgn_if)
  have "sint (word_of_int (sint n div 10) :: go_int) = sint n div 10"
    using pos up by (intro sint_word_of_int_64) auto
  with q show ?thesis by (simp add: go_quo_def)
qed

function itoa_loop :: "go_int \<Rightarrow> string \<Rightarrow> string" where
  "itoa_loop n digits =
     (if 0 <s n then itoa_loop (go_quo n 10) (byte (48 + go_rem n 10) # digits)
      else digits)"
  by pat_completeness auto
termination
proof (relation "measure (\<lambda>(n, digits). nat (sint n))")
  show "wf (measure (\<lambda>(n, digits). nat (sint n)))" by simp
next
  fix n :: go_int and digits :: string
  assume pos: "0 <s n"
  then have "0 < sint n" by (simp add: word_sless_alt)
  with sint_go_quo_10 [OF pos]
  show "((go_quo n 10, byte (48 + go_rem n 10) # digits), n, digits)
          \<in> measure (\<lambda>(n, digits). nat (sint n))"
    by simp
qed

declare itoa_loop.simps [simp del]

definition itoa :: "go_int \<Rightarrow> string" where
  "itoa n0 =
     (if n0 = 0 then ''0''
      else
        (let negative = (n0 <s 0);
             n = (if negative then - n0 else n0);
             digits = itoa_loop n []
         in if negative then CHR ''-'' # digits else digits))"

fun replaceFirst :: "string \<Rightarrow> string \<Rightarrow> string \<Rightarrow> string" where
  "replaceFirst [] old new = (if old = [] then new else [])"
| "replaceFirst (c # cs) old new =
     (if strings_HasPrefix (c # cs) old then new @ drop (length old) (c # cs)
      else c # replaceFirst cs old new)"

text \<open>The arguments of the variadic \<^verbatim>\<open>sprintf\<close> are strings and ints.\<close>

datatype fmt_arg = ArgString string | ArgInt go_int

fun sprintf :: "string \<Rightarrow> fmt_arg list \<Rightarrow> string" where
  "sprintf result [] = result"
| "sprintf result (ArgString v # args) =
     sprintf (replaceFirst (replaceFirst result ''%s'' v) ''%q''
                ([CHR 0x22] @ v @ [CHR 0x22])) args"
| "sprintf result (ArgInt v # args) = sprintf (replaceFirst result ''%d'' (itoa v)) args"

definition formatAction :: "string \<Rightarrow> string \<Rightarrow> fmt_arg list \<Rightarrow> string" where
  "formatAction action format args = action @ '': '' @ sprintf format args"

definition formatEntry :: "go_int \<Rightarrow> string \<Rightarrow> string \<Rightarrow> string" where
  "formatEntry num action status =
     sprintf (''%d. %s [%s]'' @ [CHR 0x0A]) [ArgInt num, ArgString action, ArgString status]"

definition formatClick :: "HistoryEntry \<Rightarrow> string" where
  "formatClick entry =
     (let btn = (if rButton (hAction entry) = '''' then ''left'' else rButton (hAction entry));
          dbl = (if rDouble (hAction entry) then '' double'' else '''')
      in formatAction ''click'' ''%s%s at (%d, %d)''
           [ArgString btn, ArgString dbl, ArgInt (rX (hAction entry)),
            ArgInt (rY (hAction entry))])"

definition formatType :: "HistoryEntry \<Rightarrow> string" where
  "formatType entry =
     (let text = (if 50 < length (rText (hAction entry))
                  then take 50 (rText (hAction entry)) @ ''...''
                  else rText (hAction entry))
      in formatAction ''type'' ''%q'' [ArgString text])"

definition formatKey :: "HistoryEntry \<Rightarrow> string" where
  "formatKey entry = formatAction ''key'' ''%s'' [ArgString (rKey (hAction entry))]"

definition formatScroll :: "HistoryEntry \<Rightarrow> string" where
  "formatScroll entry =
     formatAction ''scroll'' ''%s %d''
       [ArgString (rDirection (hAction entry)), ArgInt (rAmount (hAction entry))]"

definition formatFileRead :: "HistoryEntry \<Rightarrow> string" where
  "formatFileRead entry = formatAction ''file_read'' ''%s'' [ArgString (rPath (hAction entry))]"

definition formatFileWrite :: "HistoryEntry \<Rightarrow> string" where
  "formatFileWrite entry =
     formatAction ''file_write'' ''%s'' [ArgString (rPath (hAction entry))]"

definition formatWait :: "HistoryEntry \<Rightarrow> string" where
  "formatWait entry = formatAction ''wait'' ''%dms'' [ArgInt (rMs (hAction entry))]"

definition formatHistoryEntry :: "go_int \<Rightarrow> HistoryEntry \<Rightarrow> string" where
  "formatHistoryEntry num entry =
     (let t = rType (hAction entry);
          result =
            (if t = ''click'' then formatClick entry
             else if t = ''type'' then formatType entry
             else if t = ''key'' then formatKey entry
             else if t = ''scroll'' then formatScroll entry
             else if t = ''file_read'' then formatFileRead entry
             else if t = ''file_write'' then formatFileWrite entry
             else if t = ''wait'' then formatWait entry
             else t);
          status = (if hError entry \<noteq> '''' then ''ERROR: '' @ hError entry else ''OK'')
      in formatEntry num result status)"

text \<open>The \<^verbatim>\<open>for i, entry := range history\<close> loop, from index \<open>i\<close> on.\<close>

fun formatHistory :: "go_int \<Rightarrow> HistoryEntry list \<Rightarrow> string" where
  "formatHistory i [] = []"
| "formatHistory i (entry # rest) =
     formatHistoryEntry (i + 1) entry @ formatHistory (i + 1) rest"

definition BuildUserPrompt :: "string \<Rightarrow> HistoryEntry list \<Rightarrow> string" where
  "BuildUserPrompt goal history =
     ''## Goal'' @ [CHR 0x0A] @ goal @ [CHR 0x0A, CHR 0x0A]
     @ (if 0 < length history
        then ''## Action History'' @ [CHR 0x0A] @ formatHistory 0 history @ [CHR 0x0A]
        else '''')
     @ ''## Current Screenshot'' @ [CHR 0x0A]
     @ ''Analyze the screenshot below and decide the next action.'' @ [CHR 0x0A]"

section \<open>The world outside the program\<close>

text \<open>
  Screen capture, the language-model backend, the pointer and keyboard effectors, the
  file system, the clock and the cancellation signal are not part of the repository.
  They act on a world \<open>'w\<close> about which nothing is assumed: each call takes the world
  and gives the world after it, with its result. Calls that can fail return the error
  message on the left. \<^verbatim>\<open>ctx_Done\<close> says whether the context's \<^verbatim>\<open>Done\<close> channel is
  closed in a world, which is what the \<^verbatim>\<open>select\<close> with a \<^verbatim>\<open>default\<close> case tests.
  The model's backend call leaves out the arguments that are the same at every call
  (the system prompt and the token limit).
\<close>

record ContentBlock =
  block_Type :: string
  block_Text :: string

record 'w env =
  ctx_Done :: "'w \<Rightarrow> bool"
  ctx_Err :: "'w \<Rightarrow> go_error"
  capture_CaptureAndEncode :: "'w \<Rightarrow> (go_error + string) \<times> 'w"
  Messages_New :: "string \<Rightarrow> string \<Rightarrow> string \<Rightarrow> 'w \<Rightarrow> (go_error + ContentBlock list) \<times> 'w"
  json_Unmarshal :: "string \<Rightarrow> go_error + Action"
  input_Move :: "go_int \<Rightarrow> go_int \<Rightarrow> 'w \<Rightarrow> 'w"
  input_Click :: "string \<Rightarrow> bool \<Rightarrow> 'w \<Rightarrow> 'w"
  input_TypeText :: "string \<Rightarrow> 'w \<Rightarrow> 'w"
  input_KeyCombo :: "string \<Rightarrow> 'w \<Rightarrow> 'w"
  input_KeyPress :: "string \<Rightarrow> 'w \<Rightarrow> 'w"
  input_ScrollDir :: "go_int \<Rightarrow> string \<Rightarrow> 'w \<Rightarrow> 'w"
  time_Sleep :: "go_int \<Rightarrow> 'w \<Rightarrow> 'w"
  time_Now :: "'w \<Rightarrow> nat"
  filepath_IsAbs :: "string \<Rightarrow> bool"
  filepath_Dir :: "string \<Rightarrow> string"
  os_ReadFile :: "string \<Rightarrow> 'w \<Rightarrow> (go_error + string) \<times> 'w"
  os_MkdirAll :: "string \<Rightarrow> 'w \<Rightarrow> go_error option \<times> 'w"
  os_WriteFile :: "string \<Rightarrow> string \<Rightarrow> 'w \<Rightarrow> go_error option \<times> 'w"

text \<open>\<^verbatim>\<open>time.Millisecond\<close>, a \<^verbatim>\<open>time.Duration\<close> (an int64 count of nanoseconds).\<close>

definition Millisecond :: go_int where
  "Millisecond = 1000000"

section \<open>File actions (internal/action/file.go)\<close>

definition ReadFile :: "'w env \<Rightarrow> string \<Rightarrow> bool \<Rightarrow> 'w \<Rightarrow> (go_error + string) \<times> 'w" where
  "ReadFile env path requireAbsolute w =
     (if requireAbsolute \<and> \<not> filepath_IsAbs env path
      then (Inl (''path must be absolute: '' @ path), w)
      else
        (case os_ReadFile env path w of
           (Inl err, w') \<Rightarrow> (Inl (''failed to read file: '' @ err), w')
         | (Inr content, w') \<Rightarrow> (Inr content, w')))"

definition WriteFile :: "'w env \<Rightarrow> string \<Rightarrow> string \<Rightarrow> bool \<Rightarrow> 'w \<Rightarrow> go_error option \<times> 'w" where
  "WriteFile env path content requireAbsolute w =
     (if requireAbsolute \<and> \<not> filepath_IsAbs env path
      then (Some (''path must be absolute: '' @ path), w)
      else
        (let dir = filepath_Dir env path in
         case os_MkdirAll env dir w of
           (Some err, w') \<Rightarrow> (Some (''failed to create directory: '' @ err), w')
         | (None, w') \<Rightarrow>
             (case os_WriteFile env path content w' of
                (Some err, w'') \<Rightarrow> (Some (''failed to write file: '' @ err), w'')
              | (None, w'') \<Rightarrow> (None, w''))))"

section \<open>Action executor (internal/action)\<close>

record Result =
  Success :: bool
  Error :: string
  Data :: string

record Executor =
  requireAbsolutePaths :: bool

definition NewExecutor :: "bool \<Rightarrow> Executor" where
  "NewExecutor requireAbsolute = \<lparr>requireAbsolutePaths = requireAbsolute\<rparr>"

definition executeClick :: "Executor \<Rightarrow> 'w env \<Rightarrow> Action \<Rightarrow> 'w \<Rightarrow> Result \<times> 'w" where
  "executeClick e env action w =
     (let w1 = input_Move env (X action) (Y action) w;
          w2 = time_Sleep env (50 * Millisecond) w1;
          button = (if Button action = '''' then ''left'' else Button action);
          w3 = input_Click env button (Double action) w2
      in (\<lparr>Success = True, Error = '''', Data = ''''\<rparr>, w3))"

definition executeType :: "Executor \<Rightarrow> 'w env \<Rightarrow> Action \<Rightarrow> 'w \<Rightarrow> Result \<times> 'w" where
  "executeType e env action w =
     (\<lparr>Success = True, Error = '''', Data = ''''\<rparr>, input_TypeText env (Text action) w)"

definition executeKey :: "Executor \<Rightarrow> 'w env \<Rightarrow> Action \<Rightarrow> 'w \<Rightarrow> Result \<times> 'w" where
  "executeKey e env action w =
     (let key = Key action;
          w1 = (if strings_Contains key ''+'' then input_KeyCombo env key w
                else input_KeyPress env key w)
      in (\<lparr>Success = True, Error = '''', Data = ''''\<rparr>, w1))"

definition executeScroll :: "Executor \<Rightarrow> 'w env \<Rightarrow> Action \<Rightarrow> 'w \<Rightarrow> Result \<times> 'w" where
  "executeScroll e env action w =
     (let amount = (if Amount action = 0 then 3 else Amount action)
      in (\<lparr>Success = True, Error = '''', Data = ''''\<rparr>,
          input_ScrollDir env amount (Direction action) w))"

definition executeFileRead :: "Executor \<Rightarrow> 'w env \<Rightarrow> Action \<Rightarrow> 'w \<Rightarrow> Result \<times> 'w" where
  "executeFileRead e env action w =
     (case ReadFile env (Path action) (requireAbsolutePaths e) w of
        (Inl err, w') \<Rightarrow> (\<lparr>Success = False, Error = err, Data = ''''\<rparr>, w')
      | (Inr content, w') \<Rightarrow> (\<lparr>Success = True, Error = '''', Data = content\<rparr>, w'))"

definition executeFileWrite :: "Executor \<Rightarrow> 'w env \<Rightarrow> Action \<Rightarrow> 'w \<Rightarrow> Result \<times> 'w" where
  "executeFileWrite e env action w =
     (case WriteFile env (Path action) (Content action) (requireAbsolutePaths e) w of
        (Some err, w') \<Rightarrow> (\<lparr>Success = False, Error = err, Data = ''''\<rparr>, w')
      | (None, w') \<Rightarrow> (\<lparr>Success = True, Error = '''', Data = ''''\<rparr>, w'))"

definition executeWait :: "Executor \<Rightarrow> 'w env \<Rightarrow> Action \<Rightarrow> 'w \<Rightarrow> Result \<times> 'w" where
  "executeWait e env action w =
     (let ms = (if Ms action = 0 then 500 else Ms action)
      in (\<lparr>Success = True, Error = '''', Data = ''''\<rparr>, time_Sleep env (ms * Millisecond) w))"

definition Execute :: "Executor \<Rightarrow> 'w env \<Rightarrow> Action \<Rightarrow> 'w \<Rightarrow> Result \<times> 'w" where
  "Execute e env action w =
     (if Type action = ActionClick then executeClick e env action w
      else if Type action = ActionType' then executeType e env action w
      else if Type action = ActionKey then executeKey e env action w
      else if Type action = ActionScroll then executeScroll e env action w
      else if Type action = ActionFileRead then executeFileRead e env action w
      else if Type action = ActionFileWrite then executeFileWrite e env action w
      else if Type action = ActionWait then executeWait e env action w
      else if Type action = ActionDone \<or> Type action = ActionFailed
      then (\<lparr>Success = True, Error = '''', Data = ''''\<rparr>, w)
      else (\<lparr>Success = False, Error = ''unknown action type: '' @ Type action, Data = ''''\<rparr>,
            w))"

definition ToHistoryEntry :: "Action \<Rightarrow> Result \<Rightarrow> HistoryEntry" where
  "ToHistoryEntry action res =
     \<lparr>hAction =
        \<lparr>rType = Type action, rX = X action, rY = Y action, rButton = Button action,
         rDouble = Double action, rText = Text action, rKey = Key action,
         rDirection = Direction action, rAmount = Amount action, rPath = Path action,
         rContent = Content action, rMs = Ms action, rSummary = Summary action,
         rReason = Reason action\<rparr>,
      hError = (if \<not> Success res then Error res else '''')\<rparr>"

section \<open>Decision oracle client (internal/llm/client.go)\<close>

record Client =
  model :: string

definition NewClient :: "string \<Rightarrow> string \<Rightarrow> Client" where
  "NewClient apiKey model_name = \<lparr>model = model_name\<rparr>"

text \<open>The loop over the message's content blocks: the text of the first text block.\<close>

fun first_text :: "ContentBlock list \<Rightarrow> string" where
  "first_text [] = ''''"
| "first_text (block # blocks) =
     (if block_Type block = ''text'' then block_Text block else first_text blocks)"

definition GetAction ::
  "'w env \<Rightarrow> Client \<Rightarrow> string \<Rightarrow> string \<Rightarrow> HistoryEntry list \<Rightarrow> 'w \<Rightarrow> (go_error + Action) \<times> 'w"
where
  "GetAction env c goal_text screenshotBase64 hist w =
     (let userPrompt = BuildUserPrompt goal_text hist in
      case Messages_New env (model c) userPrompt screenshotBase64 w of
        (Inl err, w') \<Rightarrow> (Inl (''failed to call Anthropic API: '' @ err), w')
      | (Inr content, w') \<Rightarrow>
          if length content = 0 then (Inl ''empty response from LLM'', w')
          else
            (let responseText = first_text content in
             if responseText = '''' then (Inl ''no text response from LLM'', w')
             else (ParseAction (json_Unmarshal env) responseText, w')))"

section \<open>History log (internal/agent)\<close>

record Entry =
  Timestamp :: nat
  LLMEntry :: HistoryEntry

record History =
  entries :: "Entry list"

definition NewHistory :: History where
  "NewHistory = \<lparr>entries = []\<rparr>"

definition History_Add :: "'w env \<Rightarrow> History \<Rightarrow> HistoryEntry \<Rightarrow> 'w \<Rightarrow> History" where
  "History_Add env h entry w =
     h\<lparr>entries := entries h @ [\<lparr>Timestamp = time_Now env w, LLMEntry = entry\<rparr>]\<rparr>"

definition GetLLMHistory :: "History \<Rightarrow> HistoryEntry list" where
  "GetLLMHistory h = map LLMEntry (entries h)"


definition History_Last :: "History \<Rightarrow> Entry option" where
  "History_Last h =
     (if length (entries h) = 0 then None else Some (entries h ! (length (entries h) - 1)))"

definition History_All :: "History \<Rightarrow> Entry list" where
  "History_All h = entries h"

section \<open>Run state machine and step loop (internal/agent)\<close>

datatype State = StateIdle | StateRunning | StateCompleted | StateFailed | StateStopped

fun State_String :: "State \<Rightarrow> string" where
  "State_String StateIdle = ''idle''"
| "State_String StateRunning = ''running''"
| "State_String StateCompleted = ''completed''"
| "State_String StateFailed = ''failed''"
| "State_String StateStopped = ''stopped''"

definition IsTerminal :: "State \<Rightarrow> bool" where
  "IsTerminal s = (s = StateCompleted \<or> s = StateFailed \<or> s = StateStopped)"

record Config =
  APIKey :: string
  Model :: string
  MaxIterations :: go_int
  StabilizationMs :: go_int
  DefaultWaitMs :: go_int
  ScreenshotQuality :: go_int
  RequireAbsolutePaths :: bool

definition StabilizationDelay :: "Config \<Rightarrow> go_int" where
  "StabilizationDelay c = StabilizationMs c * Millisecond"

text \<open>
  The mutex of the agent is not a field of the model: each locked section of the source
  is one update of the record. The callbacks that the repository installs (a console
  line, a channel send) do not call back into the agent, so a callback is a change of
  the world.
\<close>

record 'w Agent =
  config :: Config
  client :: Client
  executor :: Executor
  history :: History
  goal :: string
  state :: State
  result :: string
  onAction :: "(Action \<Rightarrow> Result \<Rightarrow> 'w \<Rightarrow> 'w) option"

definition New :: "Config \<Rightarrow> 'w Agent" where
  "New cfg =
     \<lparr>config = cfg, client = NewClient (APIKey cfg) (Model cfg),
      executor = NewExecutor (RequireAbsolutePaths cfg), history = NewHistory,
      goal = '''', state = StateIdle, result = '''', onAction = None\<rparr>"

definition OnAction :: "'w Agent \<Rightarrow> (Action \<Rightarrow> Result \<Rightarrow> 'w \<Rightarrow> 'w) \<Rightarrow> 'w Agent" where
  "OnAction a fn = a\<lparr>onAction := Some fn\<rparr>"

text \<open>
  \<^verbatim>\<open>Agent.step\<close>: the returned pair is the source's \<^verbatim>\<open>(bool, error)\<close>; the agent and
  the world after the step come with it.
\<close>

definition step :: "'w env \<Rightarrow> 'w Agent \<Rightarrow> 'w \<Rightarrow> (bool \<times> go_error option) \<times> 'w Agent \<times> 'w" where
  "step env a w =
     (case capture_CaptureAndEncode env w of
        (Inl err, w1) \<Rightarrow> ((False, Some (''failed to capture screenshot: '' @ err)), a, w1)
      | (Inr screenshot, w1) \<Rightarrow>
          (case GetAction env (client a) (goal a) screenshot (GetLLMHistory (history a)) w1 of
             (Inl err, w2) \<Rightarrow>
               ((False, Some (''failed to get action from LLM: '' @ err)), a, w2)
           | (Inr nextAction, w2) \<Rightarrow>
               if Type nextAction = ActionDone
               then ((True, None),
                     a\<lparr>state := StateCompleted, result := Summary nextAction\<rparr>, w2)
               else if Type nextAction = ActionFailed
               then ((True, None),
                     a\<lparr>state := StateFailed, result := Reason nextAction\<rparr>, w2)
               else
                 (case Execute (executor a) env nextAction w2 of
                    (res, w3) \<Rightarrow>
                      (let historyEntry = ToHistoryEntry nextAction res;
                           a' = a\<lparr>history := History_Add env (history a) historyEntry w3\<rparr>;
                           w4 = (case onAction a of
                                   None \<Rightarrow> w3
                                 | Some fn \<Rightarrow> fn nextAction res w3)
                       in ((False, None), a', w4)))))"

lemma step_config: "step env a w = (r, a', w') \<Longrightarrow> config a' = config a"
  by (auto simp: step_def Let_def split: prod.splits sum.splits if_splits)

text \<open>
  The \<^verbatim>\<open>for\<close> loop of \<^verbatim>\<open>Agent.Run\<close> from counter \<open>i\<close> on, with the code after
  the loop. The counter stays below \<^verbatim>\<open>MaxIterations\<close>, so \<^verbatim>\<open>i++\<close> never wraps and
  \<open>i\<close> is an unbounded integer here. The result is the error \<^verbatim>\<open>Run\<close> returns (if
  any), the agent and the world.
\<close>

function Run_loop :: "'w env \<Rightarrow> 'w Agent \<Rightarrow> 'w \<Rightarrow> int \<Rightarrow> go_error option \<times> 'w Agent \<times> 'w" where
  "Run_loop env a w i =
     (if i < sint (MaxIterations (config a)) then
        (if ctx_Done env w then (Some (ctx_Err env w), a\<lparr>state := StateStopped\<rparr>, w)
         else
           (case step env a w of
              ((done, Some err), a', w') \<Rightarrow> (Some err, a', w')
            | ((True, None), a', w') \<Rightarrow> (None, a', w')
            | ((False, None), a', w') \<Rightarrow>
                Run_loop env a' (time_Sleep env (StabilizationDelay (config a')) w') (i + 1)))
      else
        (Some (''max iterations ('' @ fmt_d (sint (MaxIterations (config a))) @ '') reached''),
         a\<lparr>state := StateFailed, result := ''max iterations reached''\<rparr>, w))"
  by pat_completeness auto
termination
proof (relation "measure (\<lambda>(env, a, w, i). nat (sint (MaxIterations (config a)) - i))")
  show "wf (measure (\<lambda>(env, a, w, i). nat (sint (MaxIterations (config a)) - i)))"
    by simp
next
  fix env :: "'w env" and a a' :: "'w Agent" and w w' :: 'w and i :: int
    and r :: "bool \<times> go_error option" and aw :: "'w Agent \<times> 'w" and d :: bool
    and e :: "go_error option"
  assume lt: "i < sint (MaxIterations (config a))"
    and st: "(r, aw) = step env a w" and "(d, e) = r" and "(a', w') = aw"
  then have "step env a w = (r, a', w')" by simp
  then have "config a' = config a" by (rule step_config)
  with lt
  show "((env, a', time_Sleep env (StabilizationDelay (config a')) w', i + 1), env, a, w, i)
          \<in> measure (\<lambda>(env, a, w, i). nat (sint (MaxIterations (config a)) - i))"
    by simp
qed

declare Run_loop.simps [simp del]

text \<open>The deferred function of \<^verbatim>\<open>Agent.Run\<close>, run when \<^verbatim>\<open>Run\<close> returns.\<close>

definition Run_deferred :: "'w Agent \<Rightarrow> 'w Agent" where
  "Run_deferred a = (if state a = StateRunning then a\<lparr>state := StateStopped\<rparr> else a)"

definition Run :: "'w env \<Rightarrow> 'w Agent \<Rightarrow> 'w \<Rightarrow> string \<Rightarrow> go_error option \<times> 'w Agent \<times> 'w" where
  "Run env a w goal_text =
     (if state a \<noteq> StateIdle
      then (Some (''agent is not idle (current state: '' @ State_String (state a) @ '')''),
            a, w)
      else
        (case Run_loop env (a\<lparr>goal := goal_text, state := StateRunning\<rparr>) w 0 of
           (err, a', w') \<Rightarrow> (err, Run_deferred a', w')))"

definition Stop :: "'w Agent \<Rightarrow> 'w Agent" where
  "Stop a = (if state a = StateRunning then a\<lparr>state := StateStopped\<rparr> else a)"

section \<open>Notions used to state the properties\<close>

text \<open>The nine action kinds.\<close>

definition action_kinds :: "ActionType set" where
  "action_kinds =
     {ActionClick, ActionType', ActionKey, ActionScroll, ActionFileRead, ActionFileWrite,
      ActionWait, ActionDone, ActionFailed}"




text \<open>
  \<^verbatim>\<open>Run\<close> blocks its goroutine until the run is over, and \<^verbatim>\<open>Stop\<close> takes the
  agent's mutex: \<^verbatim>\<open>Stop\<close> is there to be called from another goroutine while \<^verbatim>\<open>Run\<close>
  is executing. The writes of the state happen under the mutex, so an execution is an
  interleaving of the transitions of \<^verbatim>\<open>Run\<close> with calls of \<^verbatim>\<open>Stop\<close>. The
  transitions of \<^verbatim>\<open>Run\<close> are: its entry section; one iteration of the loop from the
  loop head (the budget test, the cancellation check, the step and the sleep); the code
  after the loop; the deferred function.
\<close>

datatype pc = Entry | LoopTop int | Deferred "go_error option" | Returned "go_error option"

inductive exec :: "'w env \<Rightarrow> string \<Rightarrow> pc \<times> 'w Agent \<times> 'w \<Rightarrow> pc \<times> 'w Agent \<times> 'w \<Rightarrow> bool"
  for env :: "'w env" and goal_text :: string
where
  enter_not_idle:
    "state a \<noteq> StateIdle \<Longrightarrow>
     exec env goal_text (Entry, a, w)
       (Returned (Some (''agent is not idle (current state: '' @ State_String (state a)
          @ '')'')), a, w)"
| enter:
    "state a = StateIdle \<Longrightarrow>
     exec env goal_text (Entry, a, w)
       (LoopTop 0, a\<lparr>goal := goal_text, state := StateRunning\<rparr>, w)"
| cancelled:
    "i < sint (MaxIterations (config a)) \<Longrightarrow> ctx_Done env w \<Longrightarrow>
     exec env goal_text (LoopTop i, a, w)
       (Deferred (Some (ctx_Err env w)), a\<lparr>state := StateStopped\<rparr>, w)"
| step_error:
    "i < sint (MaxIterations (config a)) \<Longrightarrow> \<not> ctx_Done env w \<Longrightarrow>
     step env a w = ((d, Some err), a', w') \<Longrightarrow>
     exec env goal_text (LoopTop i, a, w) (Deferred (Some err), a', w')"
| step_done:
    "i < sint (MaxIterations (config a)) \<Longrightarrow> \<not> ctx_Done env w \<Longrightarrow>
     step env a w = ((True, None), a', w') \<Longrightarrow>
     exec env goal_text (LoopTop i, a, w) (Deferred None, a', w')"
| step_next:
    "i < sint (MaxIterations (config a)) \<Longrightarrow> \<not> ctx_Done env w \<Longrightarrow>
     step env a w = ((False, None), a', w') \<Longrightarrow>
     exec env goal_text (LoopTop i, a, w)
       (LoopTop (i + 1), a', time_Sleep env (StabilizationDelay (config a')) w')"
| after_loop:
    "\<not> i < sint (MaxIterations (config a)) \<Longrightarrow>
     exec env goal_text (LoopTop i, a, w)
       (Deferred (Some (''max iterations ('' @ fmt_d (sint (MaxIterations (config a)))
          @ '') reached'')),
        a\<lparr>state := StateFailed, result := ''max iterations reached''\<rparr>, w)"
| deferred:
    "exec env goal_text (Deferred err, a, w) (Returned err, Run_deferred a, w)"
| stop:
    "exec env goal_text (p, a, w) (p, Stop a, w)"

section \<open>A scripted environment for concrete runs\<close>

text \<open>
  The world is the trace of the calls made so far. The backend answers its \<open>n\<close>-th call
  with the text \<open>script n\<close>; the decoder knows the texts below; cancellation is signalled
  once the trace holds \<open>cancel\<close>.
\<close>

definition zero_Action :: Action where
  "zero_Action =
     \<lparr>Type = '''', X = 0, Y = 0, Button = '''', Double = False, Text = '''', Key = '''',
      Direction = '''', Amount = 0, Path = '''', Content = '''', Ms = 0, Summary = '''',
      Reason = ''''\<rparr>"

definition click_json :: string where
  \<open>click_json = ''{"type":"click","x":10,"y":20}''\<close>

definition done_json :: string where
  \<open>done_json = ''{"type":"done","summary":"ok"}''\<close>

definition failed_json :: string where
  \<open>failed_json = ''{"type":"failed","reason":"no window"}''\<close>

definition type_json :: string where
  \<open>type_json = ''{"type":"type"}''\<close>

definition example_Unmarshal :: "string \<Rightarrow> go_error + Action" where
  "example_Unmarshal s =
     (if s = click_json then Inr (zero_Action\<lparr>Type := ''click'', X := 10, Y := 20\<rparr>)
      else if s = done_json then Inr (zero_Action\<lparr>Type := ''done'', Summary := ''ok''\<rparr>)
      else if s = failed_json
      then Inr (zero_Action\<lparr>Type := ''failed'', Reason := ''no window''\<rparr>)
      else if s = type_json then Inr (zero_Action\<lparr>Type := ''type''\<rparr>)
      else Inl ''invalid character'')"

definition example_env :: "(nat \<Rightarrow> string) \<Rightarrow> string list env" where
  "example_env script =
     \<lparr>ctx_Done = (\<lambda>w. ''cancel'' \<in> set w),
      ctx_Err = (\<lambda>w. ''context canceled''),
      capture_CaptureAndEncode = (\<lambda>w. (Inr ''c2NyZWVu'', w @ [''capture''])),
      Messages_New =
        (\<lambda>m prompt shot w.
           (Inr [\<lparr>block_Type = ''text'', block_Text = script (count_list w ''decide'')\<rparr>],
            w @ [''decide''])),
      json_Unmarshal = example_Unmarshal,
      input_Move = (\<lambda>x y w. w @ [''move'']),
      input_Click = (\<lambda>b d w. w @ [''click'']),
      input_TypeText = (\<lambda>t w. w @ [''type'']),
      input_KeyCombo = (\<lambda>k w. w @ [''combo'']),
      input_KeyPress = (\<lambda>k w. w @ [''press'']),
      input_ScrollDir = (\<lambda>n d w. w @ [''scroll'']),
      time_Sleep = (\<lambda>d w. w @ [''sleep'']),
      time_Now = length,
      filepath_IsAbs = (\<lambda>p. strings_HasPrefix p ''/''),
      filepath_Dir = (\<lambda>p. ''.''),
      os_ReadFile = (\<lambda>p w. (Inl (''open '' @ p @ '': no such file''), w @ [''read''])),
      os_MkdirAll = (\<lambda>p w. (None, w @ [''mkdir''])),
      os_WriteFile = (\<lambda>p c w. (None, w @ [''write'']))\<rparr>"

definition example_config :: Config where
  "example_config =
     \<lparr>APIKey = ''key'', Model = ''model'', MaxIterations = 2, StabilizationMs = 500,
      DefaultWaitMs = 500, ScreenshotQuality = 80, RequireAbsolutePaths = True\<rparr>"

definition example_agent :: "string list Agent" where
  "example_agent = New example_config"

text \<open>The scripted environment whose oracle always answers with the click.\<close>

definition clicking_env :: "string list env" where
  "clicking_env = example_env (\<lambda>n. click_json)"

section \<open>The wire form of an action (Go's encoding/json)\<close>

text \<open>
  The wire form of an action is what \<^verbatim>\<open>json.Marshal\<close> writes for the \<^verbatim>\<open>Action\<close> struct
  and what \<^verbatim>\<open>json.Unmarshal\<close> reads into it (\<^verbatim>\<open>parser.go\<close>, line 18). The package
  belongs to Go's standard library and is not part of the repository; this section
  models it from its documentation and its published behaviour (Go 1.22 and later), for
  the struct tags of \<^verbatim>\<open>actions.go\<close>, lines 20 to 35, and over byte strings. The text
  of the errors of the decoder is not modelled: it is a parameter.
\<close>

subsection \<open>UTF-8 (unicode/utf8, unicode/utf16)\<close>

text \<open>
  The ranges of the bytes that have to follow a first byte outside ASCII (the tables
  \<^verbatim>\<open>first\<close> and \<^verbatim>\<open>acceptRanges\<close> of \<^verbatim>\<open>utf8.go\<close>), \<open>None\<close> for a byte that starts
  no encoding; they exclude overlong forms, surrogates and values above U+10FFFF.
  \<^verbatim>\<open>accept\<close> checks the bytes against their ranges. \<^verbatim>\<open>utf8_width\<close> is the size
  \<^verbatim>\<open>utf8.DecodeRune\<close> returns for the rune at the start of a string, with 0 where it
  returns \<^verbatim>\<open>RuneError\<close> (for the empty string, and with size 1 for a byte that starts
  no well-formed encoding).
\<close>

definition following :: "nat \<Rightarrow> (nat \<times> nat) list option" where
  "following b =
     (if b < 0xC2 then None
      else if b < 0xE0 then Some [(0x80, 0xBF)]
      else if b = 0xE0 then Some [(0xA0, 0xBF), (0x80, 0xBF)]
      else if b = 0xED then Some [(0x80, 0x9F), (0x80, 0xBF)]
      else if b < 0xF0 then Some [(0x80, 0xBF), (0x80, 0xBF)]
      else if b = 0xF0 then Some [(0x90, 0xBF), (0x80, 0xBF), (0x80, 0xBF)]
      else if b < 0xF4 then Some [(0x80, 0xBF), (0x80, 0xBF), (0x80, 0xBF)]
      else if b = 0xF4 then Some [(0x80, 0x8F), (0x80, 0xBF), (0x80, 0xBF)]
      else None)"

fun accept :: "(nat \<times> nat) list \<Rightarrow> string \<Rightarrow> bool" where
  "accept [] cs = True"
| "accept (r # rs) [] = False"
| "accept (r # rs) (c # cs) = (fst r \<le> of_char c \<and> of_char c \<le> snd r \<and> accept rs cs)"

definition utf8_width :: "string \<Rightarrow> nat" where
  "utf8_width s =
     (case s of
        [] \<Rightarrow> 0
      | c # cs \<Rightarrow>
          if (of_char c :: nat) < 0x80 then 1
          else (case following (of_char c) of
                  None \<Rightarrow> 0
                | Some rs \<Rightarrow> if accept rs cs then Suc (length rs) else 0))"

text \<open>\<^verbatim>\<open>utf8.ValidString\<close>: the string is a sequence of well-formed encodings.\<close>

function utf8_ValidString :: "string \<Rightarrow> bool" where
  "utf8_ValidString [] = True"
| "utf8_ValidString (c # cs) =
     (utf8_width (c # cs) \<noteq> 0 \<and> utf8_ValidString (drop (utf8_width (c # cs) - 1) cs))"
  by pat_completeness auto
termination
  by (relation "measure length") auto

declare utf8_ValidString.simps [simp del]

text \<open>The replacement character U+FFFD in UTF-8.\<close>

definition RuneError :: string where
  "RuneError = [CHR 0xEF, CHR 0xBF, CHR 0xBD]"

text \<open>\<^verbatim>\<open>utf8.EncodeRune\<close>, on a code point.\<close>

definition utf8_EncodeRune :: "nat \<Rightarrow> string" where
  "utf8_EncodeRune r =
     (if r < 0x80 then [char_of r]
      else if r < 0x800 then [char_of (0xC0 + r div 64), char_of (0x80 + r mod 64)]
      else if 0x10FFFF < r \<or> (0xD800 \<le> r \<and> r < 0xE000) then RuneError
      else if r < 0x10000
        then [char_of (0xE0 + r div 4096), char_of (0x80 + r div 64 mod 64),
              char_of (0x80 + r mod 64)]
      else [char_of (0xF0 + r div 262144), char_of (0x80 + r div 4096 mod 64),
            char_of (0x80 + r div 64 mod 64), char_of (0x80 + r mod 64)])"

text \<open>
  \<^verbatim>\<open>utf16.IsSurrogate\<close>, and \<^verbatim>\<open>utf16.DecodeRune\<close> with \<open>None\<close> where it returns the
  replacement character.
\<close>

definition utf16_IsSurrogate :: "nat \<Rightarrow> bool" where
  "utf16_IsSurrogate r = (0xD800 \<le> r \<and> r < 0xE000)"

definition utf16_DecodeRune :: "nat \<Rightarrow> nat \<Rightarrow> nat option" where
  "utf16_DecodeRune r1 r2 =
     (if 0xD800 \<le> r1 \<and> r1 < 0xDC00 \<and> 0xDC00 \<le> r2 \<and> r2 < 0xE000
      then Some ((r1 - 0xD800) * 1024 + (r2 - 0xDC00) + 0x10000)
      else None)"

subsection \<open>The encoder\<close>

text \<open>
  A string is written between double quotes (\<^verbatim>\<open>appendString\<close> of \<^verbatim>\<open>encode.go\<close>, with
  the escaping for web pages that \<^verbatim>\<open>Marshal\<close> switches on). The printable ASCII characters
  other than the double quote, the backslash, \<open><\<close>, \<open>>\<close> and \<open>&\<close> are copied (the
  table \<^verbatim>\<open>htmlSafeSet\<close>); the double quote and the backslash get a backslash; backspace,
  form feed, newline, carriage return and tab are written \<^verbatim>\<open>\b \f \n \r \t\<close>; every
  other ASCII byte is written \<^verbatim>\<open>\u00XX\<close>. A byte that starts no well-formed UTF-8
  encoding is written as the escape of U+FFFD; U+2028 and U+2029 are written as their
  escapes; every other well-formed encoding is copied.
\<close>

definition hex_digit :: "nat \<Rightarrow> char" where
  "hex_digit d = (if d < 10 then char_of (48 + d) else char_of (87 + d))"

definition htmlSafeSet :: "char \<Rightarrow> bool" where
  "htmlSafeSet c =
     (0x20 \<le> (of_char c :: nat) \<and> (of_char c :: nat) < 0x80 \<and> c \<noteq> CHR 0x22
      \<and> c \<noteq> CHR 0x5C \<and> c \<noteq> CHR ''<'' \<and> c \<noteq> CHR ''>'' \<and> c \<noteq> CHR ''&'')"

definition escape_ascii :: "char \<Rightarrow> string" where
  "escape_ascii c =
     (if htmlSafeSet c then [c]
      else if c = CHR 0x5C \<or> c = CHR 0x22 then [CHR 0x5C, c]
      else if c = CHR 0x08 then [CHR 0x5C, CHR ''b'']
      else if c = CHR 0x0C then [CHR 0x5C, CHR ''f'']
      else if c = CHR 0x0A then [CHR 0x5C, CHR ''n'']
      else if c = CHR 0x0D then [CHR 0x5C, CHR ''r'']
      else if c = CHR 0x09 then [CHR 0x5C, CHR ''t'']
      else [CHR 0x5C, CHR ''u'', CHR ''0'', CHR ''0'',
            hex_digit (of_char c div 16), hex_digit (of_char c mod 16)])"

function appendString_body :: "string \<Rightarrow> string" where
  "appendString_body [] = []"
| "appendString_body (c # cs) =
     (if (of_char c :: nat) < 0x80 then escape_ascii c @ appendString_body cs
      else if utf8_width (c # cs) = 0
        then [CHR 0x5C, CHR ''u'', CHR ''f'', CHR ''f'', CHR ''f'', CHR ''d'']
             @ appendString_body cs
      else if c # take 2 cs = [CHR 0xE2, CHR 0x80, CHR 0xA8]
        then [CHR 0x5C, CHR ''u'', CHR ''2'', CHR ''0'', CHR ''2'', CHR ''8'']
             @ appendString_body (drop 2 cs)
      else if c # take 2 cs = [CHR 0xE2, CHR 0x80, CHR 0xA9]
        then [CHR 0x5C, CHR ''u'', CHR ''2'', CHR ''0'', CHR ''2'', CHR ''9'']
             @ appendString_body (drop 2 cs)
      else c # take (utf8_width (c # cs) - 1) cs
           @ appendString_body (drop (utf8_width (c # cs) - 1) cs))"
  by pat_completeness auto
termination
  by (relation "measure length") auto

declare appendString_body.simps [simp del]

definition appendString :: "string \<Rightarrow> string" where
  "appendString s = CHR 0x22 # appendString_body s @ [CHR 0x22]"

text \<open>
  The value of a field of the struct: a string (also the action type), an \<^verbatim>\<open>int\<close> or
  a \<^verbatim>\<open>bool\<close>. An integer is written in decimal, a boolean as \<^verbatim>\<open>true\<close> or \<^verbatim>\<open>false\<close>.
  A field tagged \<^verbatim>\<open>omitempty\<close> is left out when its value is the empty string, zero or
  false.
\<close>

datatype field_value = StringValue string | IntValue go_int | BoolValue bool

definition isEmptyValue :: "field_value \<Rightarrow> bool" where
  "isEmptyValue v =
     (case v of StringValue s \<Rightarrow> s = [] | IntValue i \<Rightarrow> i = 0 | BoolValue b \<Rightarrow> \<not> b)"

definition encode_value :: "field_value \<Rightarrow> string" where
  "encode_value v =
     (case v of
        StringValue s \<Rightarrow> appendString s
      | IntValue i \<Rightarrow> fmt_d (sint i)
      | BoolValue b \<Rightarrow> (if b then ''true'' else ''false''))"

definition encode_member :: "string \<times> field_value \<Rightarrow> string" where
  "encode_member m = appendString (fst m) @ CHR '':'' # encode_value (snd m)"

definition omitempty :: "string \<Rightarrow> field_value \<Rightarrow> (string \<times> field_value) list" where
  "omitempty name v = (if isEmptyValue v then [] else [(name, v)])"

text \<open>The fields that are written, in the order of the struct.\<close>

definition Action_members :: "Action \<Rightarrow> (string \<times> field_value) list" where
  "Action_members a =
     [(''type'', StringValue (Type a))]
     @ omitempty ''x'' (IntValue (X a))
     @ omitempty ''y'' (IntValue (Y a))
     @ omitempty ''button'' (StringValue (Button a))
     @ omitempty ''double'' (BoolValue (Double a))
     @ omitempty ''text'' (StringValue (Text a))
     @ omitempty ''key'' (StringValue (Key a))
     @ omitempty ''direction'' (StringValue (Direction a))
     @ omitempty ''amount'' (IntValue (Amount a))
     @ omitempty ''path'' (StringValue (Path a))
     @ omitempty ''content'' (StringValue (Content a))
     @ omitempty ''ms'' (IntValue (Ms a))
     @ omitempty ''summary'' (StringValue (Summary a))
     @ omitempty ''reason'' (StringValue (Reason a))"

fun join_comma :: "string list \<Rightarrow> string" where
  "join_comma [] = []"
| "join_comma [x] = x"
| "join_comma (x # y # ys) = x @ CHR '','' # join_comma (y # ys)"

definition Marshal :: "Action \<Rightarrow> string" where
  "Marshal a = CHR ''{'' # join_comma (map encode_member (Action_members a)) @ [CHR ''}'']"

subsection \<open>The decoder: JSON texts\<close>

text \<open>
  \<^verbatim>\<open>Unmarshal\<close> first checks that the whole text is one JSON value between optional
  white space (\<^verbatim>\<open>checkValid\<close> with the scanner of \<^verbatim>\<open>scanner.go\<close>), then stores the
  value. The model reads the value into a tree in one pass, \<open>None\<close> standing for a
  syntax error. Strings are kept unquoted, numbers as their literal.
\<close>

datatype json =
  JNull | JBool bool | JNumber string | JString string | JArray "json list"
  | JObject "(string \<times> json) list"

definition isSpace :: "char \<Rightarrow> bool" where
  "isSpace c = (c = CHR '' '' \<or> c = CHR 0x09 \<or> c = CHR 0x0D \<or> c = CHR 0x0A)"

definition skip_space :: "string \<Rightarrow> string" where
  "skip_space s = dropWhile isSpace s"

definition expect :: "char \<Rightarrow> string \<Rightarrow> string option" where
  "expect c s = (case s of [] \<Rightarrow> None | x # xs \<Rightarrow> if x = c then Some xs else None)"

text \<open>The four hexadecimal digits of a \<^verbatim>\<open>\u\<close> escape (\<^verbatim>\<open>getu4\<close> of \<^verbatim>\<open>decode.go\<close>).\<close>

definition hex_value :: "char \<Rightarrow> nat option" where
  "hex_value c =
     (let b = of_char c :: nat in
      if 0x30 \<le> b \<and> b \<le> 0x39 then Some (b - 0x30)
      else if 0x61 \<le> b \<and> b \<le> 0x66 then Some (b - 0x61 + 10)
      else if 0x41 \<le> b \<and> b \<le> 0x46 then Some (b - 0x41 + 10)
      else None)"

definition hex4 :: "string \<Rightarrow> nat option" where
  "hex4 s =
     (case map hex_value (take 4 s) of
        [Some a, Some b, Some c, Some d] \<Rightarrow> Some (((a * 16 + b) * 16 + c) * 16 + d)
      | _ \<Rightarrow> None)"

definition getu4 :: "string \<Rightarrow> nat option" where
  "getu4 s = (if take 2 s = [CHR 0x5C, CHR ''u''] then hex4 (drop 2 s) else None)"

definition emit :: "string \<Rightarrow> (string \<times> string) option \<Rightarrow> (string \<times> string) option" where
  "emit p r = map_option (\<lambda>(t, rest). (p @ t, rest)) r"

text \<open>
  A string literal after its opening quote: the unquoted string and the text after the
  closing quote. The scanner refuses a control character and an escape other than
  \<^verbatim>\<open>\" \\ \/ \b \f \n \r \t\<close> and \<^verbatim>\<open>\u\<close> with four hexadecimal digits;
  \<^verbatim>\<open>unquoteBytes\<close> replaces the escapes, joins a pair of surrogate escapes, and writes
  U+FFFD for a lone surrogate and for every byte that starts no well-formed UTF-8
  encoding (a well-formed encoding is decoded and encoded again, that is copied).
\<close>

function unquote :: "string \<Rightarrow> (string \<times> string) option" where
  "unquote [] = None"
| "unquote (c # cs) =
     (if c = CHR 0x22 then Some ([], cs)
      else if c = CHR 0x5C then
        (case cs of
           [] \<Rightarrow> None
         | e # es \<Rightarrow>
             if e = CHR 0x22 \<or> e = CHR 0x5C \<or> e = CHR ''/'' then emit [e] (unquote es)
             else if e = CHR ''b'' then emit [CHR 0x08] (unquote es)
             else if e = CHR ''f'' then emit [CHR 0x0C] (unquote es)
             else if e = CHR ''n'' then emit [CHR 0x0A] (unquote es)
             else if e = CHR ''r'' then emit [CHR 0x0D] (unquote es)
             else if e = CHR ''t'' then emit [CHR 0x09] (unquote es)
             else if e = CHR ''u'' then
               (case hex4 es of
                  None \<Rightarrow> None
                | Some rr \<Rightarrow>
                    if utf16_IsSurrogate rr then
                      (case getu4 (drop 4 es) of
                         None \<Rightarrow> emit RuneError (unquote (drop 4 es))
                       | Some rr1 \<Rightarrow>
                           (case utf16_DecodeRune rr rr1 of
                              None \<Rightarrow> emit RuneError (unquote (drop 4 es))
                            | Some dec \<Rightarrow> emit (utf8_EncodeRune dec) (unquote (drop 10 es))))
                    else emit (utf8_EncodeRune rr) (unquote (drop 4 es)))
             else None)
      else if (of_char c :: nat) < 0x20 then None
      else if (of_char c :: nat) < 0x80 then emit [c] (unquote cs)
      else if utf8_width (c # cs) = 0 then emit RuneError (unquote cs)
      else emit (c # take (utf8_width (c # cs) - 1) cs)
             (unquote (drop (utf8_width (c # cs) - 1) cs)))"
  by pat_completeness auto
termination
  by (relation "measure length") auto

declare unquote.simps [simp del]

text \<open>
  A number literal: an optional minus sign, \<open>0\<close> or a digit from 1 to 9 followed by
  digits, an optional fraction and an optional exponent. The result is the literal
  and the text after it.
\<close>

definition isDigit :: "char \<Rightarrow> bool" where
  "isDigit c = (0x30 \<le> (of_char c :: nat) \<and> (of_char c :: nat) \<le> 0x39)"

definition digits1 :: "string \<Rightarrow> string option" where
  "digits1 s = (if takeWhile isDigit s = [] then None else Some (dropWhile isDigit s))"

definition scan_int :: "string \<Rightarrow> string option" where
  "scan_int s =
     (let s1 = (if strings_HasPrefix s ''-'' then tl s else s) in
      if strings_HasPrefix s1 ''0'' then Some (tl s1) else digits1 s1)"

definition scan_frac :: "string \<Rightarrow> string option" where
  "scan_frac s = (if strings_HasPrefix s ''.'' then digits1 (tl s) else Some s)"

definition scan_exp :: "string \<Rightarrow> string option" where
  "scan_exp s =
     (if strings_HasPrefix s ''e'' \<or> strings_HasPrefix s ''E''
      then digits1 (if strings_HasPrefix (tl s) ''+'' \<or> strings_HasPrefix (tl s) ''-''
                    then tl (tl s) else tl s)
      else Some s)"

definition scan_number :: "string \<Rightarrow> (string \<times> string) option" where
  "scan_number s =
     (case Option.bind (Option.bind (scan_int s) scan_frac) scan_exp of
        None \<Rightarrow> None
      | Some rest \<Rightarrow> Some (take (length s - length rest) s, rest))"

text \<open>
  A value, the members of an object after its opening brace and the elements of an
  array after its opening bracket, each with the text that follows. The first argument
  bounds the number of nested calls and is the length of the text at the start, which
  no text exhausts since every call consumes a byte; the second is the number of
  objects and arrays that are open, which the scanner limits to 10000.
\<close>

definition maxNestingDepth :: nat where
  "maxNestingDepth = 10000"

fun scan_value :: "nat \<Rightarrow> nat \<Rightarrow> string \<Rightarrow> (json \<times> string) option"
  and scan_members :: "nat \<Rightarrow> nat \<Rightarrow> string \<Rightarrow> ((string \<times> json) list \<times> string) option"
  and scan_elements :: "nat \<Rightarrow> nat \<Rightarrow> string \<Rightarrow> (json list \<times> string) option"
where
  "scan_value 0 d s = None"
| "scan_value (Suc n) d [] = None"
| "scan_value (Suc n) d (c # cs) =
     (if c = CHR ''{'' then
        (if maxNestingDepth \<le> d then None
         else if strings_HasPrefix (skip_space cs) ''}''
           then Some (JObject [], tl (skip_space cs))
         else map_option (\<lambda>(ms, r). (JObject ms, r)) (scan_members n (Suc d) (skip_space cs)))
      else if c = CHR ''['' then
        (if maxNestingDepth \<le> d then None
         else if strings_HasPrefix (skip_space cs) '']''
           then Some (JArray [], tl (skip_space cs))
         else map_option (\<lambda>(vs, r). (JArray vs, r)) (scan_elements n (Suc d) (skip_space cs)))
      else if c = CHR 0x22 then map_option (\<lambda>(t, r). (JString t, r)) (unquote cs)
      else if strings_HasPrefix (c # cs) ''true'' then Some (JBool True, drop 4 (c # cs))
      else if strings_HasPrefix (c # cs) ''false'' then Some (JBool False, drop 5 (c # cs))
      else if strings_HasPrefix (c # cs) ''null'' then Some (JNull, drop 4 (c # cs))
      else map_option (\<lambda>(l, r). (JNumber l, r)) (scan_number (c # cs)))"
| "scan_members 0 d s = None"
| "scan_members (Suc n) d s =
     (case expect (CHR 0x22) s of
        None \<Rightarrow> None
      | Some s1 \<Rightarrow>
          (case unquote s1 of
             None \<Rightarrow> None
           | Some (k, s2) \<Rightarrow>
               (case expect (CHR '':'') (skip_space s2) of
                  None \<Rightarrow> None
                | Some s3 \<Rightarrow>
                    (case scan_value n d (skip_space s3) of
                       None \<Rightarrow> None
                     | Some (v, s4) \<Rightarrow>
                         (case skip_space s4 of
                            [] \<Rightarrow> None
                          | x # s5 \<Rightarrow>
                              if x = CHR ''}'' then Some ([(k, v)], s5)
                              else if x = CHR '','' then
                                map_option (\<lambda>(ms, r). ((k, v) # ms, r))
                                  (scan_members n d (skip_space s5))
                              else None)))))"
| "scan_elements 0 d s = None"
| "scan_elements (Suc n) d s =
     (case scan_value n d s of
        None \<Rightarrow> None
      | Some (v, s1) \<Rightarrow>
          (case skip_space s1 of
             [] \<Rightarrow> None
           | x # s2 \<Rightarrow>
               if x = CHR '']'' then Some ([v], s2)
               else if x = CHR '','' then
                 map_option (\<lambda>(vs, r). (v # vs, r)) (scan_elements n d (skip_space s2))
               else None))"

declare scan_value.simps [simp del] scan_members.simps [simp del]
  scan_elements.simps [simp del]

definition checkValid :: "string \<Rightarrow> json option" where
  "checkValid data =
     (case scan_value (Suc (length data)) 0 (skip_space data) of
        None \<Rightarrow> None
      | Some (v, rest) \<Rightarrow> if skip_space rest = [] then Some v else None)"

subsection \<open>The decoder: storing a value into the struct\<close>

text \<open>
  A number is stored into an \<^verbatim>\<open>int\<close> field with \<^verbatim>\<open>strconv.ParseInt\<close> in base 10 and
  64 bits: the literal has to be an integer without fraction and exponent, within the
  range of the type.
\<close>

definition digits_value :: "string \<Rightarrow> nat" where
  "digits_value ds = foldl (\<lambda>v c. 10 * v + (of_char c - 48)) 0 ds"

definition ParseInt :: "string \<Rightarrow> go_int option" where
  "ParseInt l =
     (let ds = (if strings_HasPrefix l ''-'' then tl l else l);
          k = (if strings_HasPrefix l ''-'' then - int (digits_value ds)
               else int (digits_value ds))
      in if ds = [] \<or> \<not> list_all isDigit ds then None
         else if - (2 ^ 63) \<le> k \<and> k < 2 ^ 63 then Some (word_of_int k)
         else None)"

text \<open>
  The key of a member selects the field whose name it equals up to case
  (\<^verbatim>\<open>foldName\<close>; the Kelvin sign U+212A counts as \<open>K\<close> and the long s U+017F as
  \<open>S\<close>, and no other character outside ASCII equals a letter of a field name up to
  case); a member with any other key is skipped. \<^verbatim>\<open>null\<close> leaves the field as it
  is; a value of another type than the field's is an \<^verbatim>\<open>UnmarshalTypeError\<close>, here
  \<open>None\<close>. A later member for the same field overwrites an earlier one.
\<close>

fun foldName :: "string \<Rightarrow> string" where
  "foldName [] = []"
| "foldName (c # cs) =
     (if 0x61 \<le> (of_char c :: nat) \<and> (of_char c :: nat) \<le> 0x7A
        then char_of (of_char c - 32 :: nat) # foldName cs
      else if c # take 2 cs = [CHR 0xE2, CHR 0x84, CHR 0xAA] then CHR ''K'' # foldName (drop 2 cs)
      else if c # take 1 cs = [CHR 0xC5, CHR 0xBF] then CHR ''S'' # foldName (drop 1 cs)
      else c # foldName cs)"

definition store_string :: "(string \<Rightarrow> Action) \<Rightarrow> json \<Rightarrow> Action \<Rightarrow> Action option" where
  "store_string upd v a =
     (case v of JString s \<Rightarrow> Some (upd s) | JNull \<Rightarrow> Some a | _ \<Rightarrow> None)"

definition store_int :: "(go_int \<Rightarrow> Action) \<Rightarrow> json \<Rightarrow> Action \<Rightarrow> Action option" where
  "store_int upd v a =
     (case v of JNumber l \<Rightarrow> map_option upd (ParseInt l) | JNull \<Rightarrow> Some a | _ \<Rightarrow> None)"

definition store_bool :: "(bool \<Rightarrow> Action) \<Rightarrow> json \<Rightarrow> Action \<Rightarrow> Action option" where
  "store_bool upd v a =
     (case v of JBool b \<Rightarrow> Some (upd b) | JNull \<Rightarrow> Some a | _ \<Rightarrow> None)"

definition store_member :: "string \<Rightarrow> json \<Rightarrow> Action \<Rightarrow> Action option" where
  "store_member k v a =
     (let name = foldName k in
      if name = ''TYPE'' then store_string (\<lambda>s. a\<lparr>Type := s\<rparr>) v a
      else if name = ''X'' then store_int (\<lambda>i. a\<lparr>X := i\<rparr>) v a
      else if name = ''Y'' then store_int (\<lambda>i. a\<lparr>Y := i\<rparr>) v a
      else if name = ''BUTTON'' then store_string (\<lambda>s. a\<lparr>Button := s\<rparr>) v a
      else if name = ''DOUBLE'' then store_bool (\<lambda>b. a\<lparr>Double := b\<rparr>) v a
      else if name = ''TEXT'' then store_string (\<lambda>s. a\<lparr>Text := s\<rparr>) v a
      else if name = ''KEY'' then store_string (\<lambda>s. a\<lparr>Key := s\<rparr>) v a
      else if name = ''DIRECTION'' then store_string (\<lambda>s. a\<lparr>Direction := s\<rparr>) v a
      else if name = ''AMOUNT'' then store_int (\<lambda>i. a\<lparr>Amount := i\<rparr>) v a
      else if name = ''PATH'' then store_string (\<lambda>s. a\<lparr>Path := s\<rparr>) v a
      else if name = ''CONTENT'' then store_string (\<lambda>s. a\<lparr>Content := s\<rparr>) v a
      else if name = ''MS'' then store_int (\<lambda>i. a\<lparr>Ms := i\<rparr>) v a
      else if name = ''SUMMARY'' then store_string (\<lambda>s. a\<lparr>Summary := s\<rparr>) v a
      else if name = ''REASON'' then store_string (\<lambda>s. a\<lparr>Reason := s\<rparr>) v a
      else Some a)"

text \<open>
  An \<^verbatim>\<open>UnmarshalTypeError\<close> does not stop the decoder, which stores the remaining
  members and returns the first such error at the end: the result is then the error.
\<close>

fun store_members :: "(string \<times> json) list \<Rightarrow> Action \<Rightarrow> Action option" where
  "store_members [] a = Some a"
| "store_members (m # ms) a =
     (case store_member (fst m) (snd m) a of
        None \<Rightarrow> None
      | Some a' \<Rightarrow> store_members ms a')"

text \<open>
  \<^verbatim>\<open>ParseAction\<close> decodes into a fresh struct: an object fills it, \<^verbatim>\<open>null\<close> leaves
  it, and any other value is an \<^verbatim>\<open>UnmarshalTypeError\<close>.
\<close>

definition store_Action :: "json \<Rightarrow> Action option" where
  "store_Action v =
     (case v of
        JObject ms \<Rightarrow> store_members ms zero_Action
      | JNull \<Rightarrow> Some zero_Action
      | _ \<Rightarrow> None)"

definition Unmarshal :: "(string \<Rightarrow> go_error) \<Rightarrow> string \<Rightarrow> go_error + Action" where
  "Unmarshal error_text data =
     (case Option.bind (checkValid data) store_Action of
        None \<Rightarrow> Inl (error_text data)
      | Some a \<Rightarrow> Inr a)"

text \<open>
  The tree that the decoder reads from the encoding of a field value, and the field
  values whose strings are valid UTF-8.
\<close>

definition value_tree :: "field_value \<Rightarrow> json" where
  "value_tree v =
     (case v of
        StringValue s \<Rightarrow> JString s
      | IntValue i \<Rightarrow> JNumber (fmt_d (sint i))
      | BoolValue b \<Rightarrow> JBool b)"

definition valid_value :: "field_value \<Rightarrow> bool" where
  "valid_value v = (case v of StringValue s \<Rightarrow> utf8_ValidString s | _ \<Rightarrow> True)"

text \<open>The fields of an action that hold free text.\<close>

definition text_fields :: "Action \<Rightarrow> string list" where
  "text_fields a =
     [Button a, Text a, Key a, Direction a, Path a, Content a, Summary a, Reason a]"

text \<open>Three actions and their wire forms, for concrete round trips.\<close>

definition left_click :: Action where
  "left_click = zero_Action\<lparr>Type := ''click'', X := 10, Y := 20, Button := ''left''\<rparr>"

definition left_click_json :: string where
  \<open>left_click_json = ''{"type":"click","x":10,"y":20,"button":"left"}''\<close>

definition typed_text :: Action where
  "typed_text =
     zero_Action\<lparr>Type := ''type'', Text := ''a<b'' @ [CHR 0x0A, CHR 0xC3, CHR 0xA9]\<rparr>"

definition typed_text_json :: string where
  \<open>typed_text_json =
     ''{"type":"type","text":"a'' @ [CHR 0x5C] @ ''u003cb'' @ [CHR 0x5C] @ ''n''
     @ [CHR 0xC3, CHR 0xA9] @ ''"}''\<close>

definition bad_key :: Action where
  "bad_key = zero_Action\<lparr>Type := ''key'', Key := [CHR 0xFF]\<rparr>"

definition bad_key_json :: string where
  \<open>bad_key_json = ''{"type":"key","key":"'' @ [CHR 0x5C] @ ''ufffd"}''\<close>

definition bad_key_decoded :: Action where
  "bad_key_decoded = zero_Action\<lparr>Type := ''key'', Key := [CHR 0xEF, CHR 0xBF, CHR 0xBD]\<rparr>"

section \<open>Stop and the not-idle guard of Run\<close>

text \<open>
  C9. \<^verbatim>\<open>Stop\<close> changes the state only when it is \<open>Running\<close>, and then to
  \<open>Stopped\<close>. In every other state (\<open>Idle\<close>, \<open>Completed\<close>, \<open>Failed\<close>, \<open>Stopped\<close>)
  the agent after \<^verbatim>\<open>Stop\<close> is the agent before it; in particular an agent that was
  never started stays \<open>Idle\<close>. No field other than the state is ever changed.
\<close>

theorem Stop_only_from_running:
  "(state a = StateRunning \<longrightarrow> state (Stop a) = StateStopped)
   \<and> (state a \<noteq> StateRunning \<longrightarrow> Stop a = a)
   \<and> (state a = StateIdle \<longrightarrow> state (Stop a) = StateIdle)
   \<and> config (Stop a) = config a \<and> client (Stop a) = client a
   \<and> executor (Stop a) = executor a \<and> history (Stop a) = history a
   \<and> goal (Stop a) = goal a \<and> result (Stop a) = result a
   \<and> onAction (Stop a) = onAction a"
  by (simp add: Stop_def)

theorem Stop_only_from_running_witness:
  "state (Stop (example_agent\<lparr>state := StateRunning\<rparr>)) = StateStopped
   \<and> Stop example_agent = example_agent
   \<and> state (Stop example_agent) = StateIdle"
  using Stop_only_from_running [of "example_agent\<lparr>state := StateRunning\<rparr>"]
    Stop_only_from_running [of example_agent]
  by (simp add: example_agent_def New_def)

text \<open>
  C5. \<^verbatim>\<open>Run\<close> on an agent that is not \<open>Idle\<close> returns the not-idle error, naming the
  current state, and gives back the agent and the world as they were: no field of the
  agent changes and no step is executed.
\<close>

theorem Run_not_idle:
  "state a \<noteq> StateIdle \<Longrightarrow>
     Run env a w goal_text =
       (Some (''agent is not idle (current state: '' @ State_String (state a) @ '')''), a, w)"
  by (simp add: Run_def)

theorem Run_not_idle_witness:
  "state (example_agent\<lparr>state := StateCompleted\<rparr>) \<noteq> StateIdle
   \<and> Run (example_env (\<lambda>n. click_json)) (example_agent\<lparr>state := StateCompleted\<rparr>) []
         ''again''
       = (Some ''agent is not idle (current state: completed)'',
          example_agent\<lparr>state := StateCompleted\<rparr>, [])"
  using Run_not_idle [of "example_agent\<lparr>state := StateCompleted\<rparr>"
      "example_env (\<lambda>n. click_json)" "[]" "''again''"]
  by simp

section \<open>Cancellation and terminal decisions\<close>

text \<open>
  C6. Iteration \<open>N\<close> of the loop is the one with counter \<open>i = N - 1\<close>, entered with the
  agent \<open>a\<close> and the world \<open>w\<close> that the iterations before it left. If the cancellation
  signal is observed at its top, the loop returns the context's error at once with the
  state \<open>Stopped\<close>: the world is still \<open>w\<close> (no observation, no decision and no action
  took place) and the history is unchanged. The deferred function then leaves the
  agent as it is. This holds for every counter below the budget, so the check is made
  at the top of every iteration.
\<close>

theorem Run_loop_cancelled:
  assumes "i < sint (MaxIterations (config a))" and "ctx_Done env w"
  shows "Run_loop env a w i = (Some (ctx_Err env w), a\<lparr>state := StateStopped\<rparr>, w)
         \<and> Run_deferred (a\<lparr>state := StateStopped\<rparr>) = a\<lparr>state := StateStopped\<rparr>
         \<and> history (a\<lparr>state := StateStopped\<rparr>) = history a"
  using assms by (simp add: Run_loop.simps Run_deferred_def)

theorem Run_loop_cancelled_witness:
  "(1::int) < sint (MaxIterations (config (example_agent\<lparr>state := StateRunning\<rparr>)))
   \<and> ctx_Done (example_env (\<lambda>n. click_json)) [''capture'', ''cancel'']
   \<and> Run_loop (example_env (\<lambda>n. click_json)) (example_agent\<lparr>state := StateRunning\<rparr>)
        [''capture'', ''cancel''] 1
      = (Some ''context canceled'', example_agent\<lparr>state := StateStopped\<rparr>,
         [''capture'', ''cancel''])"
proof -
  have h1: "(1::int) < sint (MaxIterations (config (example_agent\<lparr>state := StateRunning\<rparr>)))"
    by (simp add: example_agent_def New_def example_config_def)
  have h2: "ctx_Done (example_env (\<lambda>n. click_json)) [''capture'', ''cancel'']"
    by (simp add: example_env_def)
  from Run_loop_cancelled [OF h1 h2] h1 h2 show ?thesis
    by (simp add: example_env_def)
qed

text \<open>
  C1. In an iteration that reaches the decision (its counter is below the budget, no
  cancellation at its top, the observation succeeds) and in which the oracle returns a
  validated action \<open>act\<close>: when \<open>act\<close> is \<open>done\<close> the state becomes \<open>Completed\<close> and the
  result its summary, when it is \<open>failed\<close> the state becomes \<open>Failed\<close> and the result its
  reason. In both cases \<^verbatim>\<open>Run\<close> returns no error, the world is the one the decision
  call left (the Executor is not invoked and no further iteration runs), the history
  is unchanged, and the deferred function leaves the terminal state alone. It holds
  whatever the state was before, so in particular for a run in state \<open>Running\<close>.
\<close>

theorem Run_loop_terminal_decision:
  assumes "i < sint (MaxIterations (config a))" and "\<not> ctx_Done env w"
    and "capture_CaptureAndEncode env w = (Inr screenshot, w1)"
    and "GetAction env (client a) (goal a) screenshot (GetLLMHistory (history a)) w1
           = (Inr act, w2)"
  shows "(Type act = ActionDone \<longrightarrow>
            Run_loop env a w i
              = (None, a\<lparr>state := StateCompleted, result := Summary act\<rparr>, w2)
            \<and> Run_deferred (a\<lparr>state := StateCompleted, result := Summary act\<rparr>)
              = a\<lparr>state := StateCompleted, result := Summary act\<rparr>
            \<and> history (a\<lparr>state := StateCompleted, result := Summary act\<rparr>) = history a)
         \<and> (Type act = ActionFailed \<longrightarrow>
            Run_loop env a w i
              = (None, a\<lparr>state := StateFailed, result := Reason act\<rparr>, w2)
            \<and> Run_deferred (a\<lparr>state := StateFailed, result := Reason act\<rparr>)
              = a\<lparr>state := StateFailed, result := Reason act\<rparr>
            \<and> history (a\<lparr>state := StateFailed, result := Reason act\<rparr>) = history a)"
proof -
  have d: "Type act = ActionDone \<Longrightarrow>
      step env a w = ((True, None), a\<lparr>state := StateCompleted, result := Summary act\<rparr>, w2)"
    using assms(3,4) by (simp add: step_def)
  have f: "Type act = ActionFailed \<Longrightarrow>
      step env a w = ((True, None), a\<lparr>state := StateFailed, result := Reason act\<rparr>, w2)"
    using assms(3,4) by (simp add: step_def ActionType_defs)
  show ?thesis
    using assms(1,2) d f by (simp add: Run_loop.simps Run_deferred_def)
qed

lemma example_GetAction_done:
  "GetAction (example_env (\<lambda>n. done_json)) c g s h [''capture'']
     = (Inr (zero_Action\<lparr>Type := ''done'', Summary := ''ok''\<rparr>), [''capture'', ''decide''])"
  by code_simp

lemma example_GetAction_failed:
  "GetAction (example_env (\<lambda>n. failed_json)) c g s h [''capture'']
     = (Inr (zero_Action\<lparr>Type := ''failed'', Reason := ''no window''\<rparr>),
        [''capture'', ''decide''])"
  by code_simp

theorem Run_loop_terminal_decision_witness:
  "Run_loop (example_env (\<lambda>n. done_json)) (example_agent\<lparr>state := StateRunning\<rparr>) [] 0
     = (None, example_agent\<lparr>state := StateCompleted, result := ''ok''\<rparr>,
        [''capture'', ''decide''])
   \<and> Run_loop (example_env (\<lambda>n. failed_json)) (example_agent\<lparr>state := StateRunning\<rparr>) [] 0
     = (None, example_agent\<lparr>state := StateFailed, result := ''no window''\<rparr>,
        [''capture'', ''decide''])"
proof -
  let ?a = "example_agent\<lparr>state := StateRunning\<rparr>"
  have h1: "0 < sint (MaxIterations (config ?a))"
    by (simp add: example_agent_def New_def example_config_def)
  have h2: "\<not> ctx_Done (example_env script) []" for script
    by (simp add: example_env_def)
  have h3: "capture_CaptureAndEncode (example_env script) [] = (Inr ''c2NyZWVu'', [''capture''])"
    for script
    by (simp add: example_env_def)
  from Run_loop_terminal_decision [OF h1 h2 h3 example_GetAction_done]
    Run_loop_terminal_decision [OF h1 h2 h3 example_GetAction_failed]
  show ?thesis
    by (simp add: zero_Action_def ActionType_defs)
qed

section \<open>Validation and the Executor's outcomes\<close>

lemma Validate_click:
  "Type a = ActionClick \<Longrightarrow>
     Validate a = (if Button a = '''' then a\<lparr>Button := ''left''\<rparr> else a, None)"
  by (simp add: Validate_def)

lemma Validate_type:
  "Type a = ActionType' \<Longrightarrow>
     Validate a =
       (a, if Text a = ''''
           then Some \<lparr>Field = ''text'', Message = ''text is required for type action''\<rparr>
           else None)"
  by (simp add: Validate_def ActionType_defs)

lemma Validate_key:
  "Type a = ActionKey \<Longrightarrow>
     Validate a =
       (a, if Key a = ''''
           then Some \<lparr>Field = ''key'', Message = ''key is required for key action''\<rparr>
           else None)"
  by (simp add: Validate_def ActionType_defs)

lemma Validate_scroll:
  "Type a = ActionScroll \<Longrightarrow>
     Validate a =
       (if Direction a = ''''
        then (a, Some \<lparr>Field = ''direction'',
                        Message = ''direction is required for scroll action''\<rparr>)
        else (if Amount a = 0 then a\<lparr>Amount := 3\<rparr> else a, None))"
  by (simp add: Validate_def ActionType_defs)

lemma Validate_file_read:
  "Type a = ActionFileRead \<Longrightarrow>
     Validate a =
       (a, if Path a = ''''
           then Some \<lparr>Field = ''path'', Message = ''path is required for file_read action''\<rparr>
           else None)"
  by (simp add: Validate_def ActionType_defs)

lemma Validate_file_write:
  "Type a = ActionFileWrite \<Longrightarrow>
     Validate a =
       (a, if Path a = ''''
           then Some \<lparr>Field = ''path'', Message = ''path is required for file_write action''\<rparr>
           else None)"
  by (simp add: Validate_def ActionType_defs)

lemma Validate_wait:
  "Type a = ActionWait \<Longrightarrow> Validate a = (if Ms a = 0 then a\<lparr>Ms := 500\<rparr> else a, None)"
  by (simp add: Validate_def ActionType_defs)

lemma Validate_done: "Type a = ActionDone \<Longrightarrow> Validate a = (a, None)"
  by (simp add: Validate_def ActionType_defs)

lemma Validate_failed:
  "Type a = ActionFailed \<Longrightarrow>
     Validate a =
       (a, if Reason a = ''''
           then Some \<lparr>Field = ''reason'', Message = ''reason is required for failed action''\<rparr>
           else None)"
  by (simp add: Validate_def ActionType_defs)

lemma Validate_unknown:
  "Type a \<notin> action_kinds \<Longrightarrow>
     Validate a = (a, Some \<lparr>Field = ''type'', Message = ''unknown action type: '' @ Type a\<rparr>)"
  by (simp add: Validate_def action_kinds_def)

lemma ParseAction_invalid:
  assumes "unm (cleanResponse response) = Inr raw" and "snd (Validate raw) = Some verr"
  shows "ParseAction unm response = Inl (''invalid action: '' @ Message verr)"
  using assms
  by (cases "Validate raw") (simp add: ParseAction_def ValidationError_Error_def)

lemma step_invalid:
  assumes "capture_CaptureAndEncode env w = (Inr screenshot, w1)"
    and "Messages_New env (model (client ag))
           (BuildUserPrompt (goal ag) (GetLLMHistory (history ag))) screenshot w1
         = (Inr content, w2)"
    and "content \<noteq> []" and "first_text content \<noteq> ''''"
    and "json_Unmarshal env (cleanResponse (first_text content)) = Inr raw"
    and "snd (Validate raw) = Some verr"
  shows "step env ag w =
           ((False, Some (''failed to get action from LLM: invalid action: '' @ Message verr)),
            ag, w2)"
proof -
  have "GetAction env (client ag) (goal ag) screenshot (GetLLMHistory (history ag)) w1
          = (Inl (''invalid action: '' @ Message verr), w2)"
    using assms(2-6)
      ParseAction_invalid [of "json_Unmarshal env" "first_text content" raw verr]
    by (simp add: GetAction_def)
  with assms(1) show ?thesis
    by (simp add: step_def)
qed

text \<open>
  C2, as amended. \<^verbatim>\<open>Validate\<close> by kind; the first component is the action as the call
  leaves it, the second the error it returns. A click gets the button \<open>left\<close> when it
  has none, a wait gets 500 ms when its duration is zero, and both are accepted. A
  scroll is checked for its direction first: with a direction it gets the amount 3
  when its amount is zero and is accepted, without one it is rejected and left as it
  is. A \<open>type\<close> without text, a \<open>key\<close> without key, a scroll without direction, a file
  action without path and a \<open>failed\<close> without reason are rejected with a
  ValidationError naming that field and are accepted otherwise; \<open>done\<close> is always
  accepted; a tag outside the nine kinds is rejected with the field \<open>type\<close>. When the
  action decoded from the oracle's answer is rejected, the step returns the error with
  the agent unchanged and the world as the decision call left it: the Executor is not
  invoked and nothing is added to the history, and the loop returns that error.
\<close>

theorem Validate_rules:
  "(Type a = ActionClick \<longrightarrow>
      Validate a = (if Button a = '''' then a\<lparr>Button := ''left''\<rparr> else a, None))
   \<and> (Type a = ActionScroll \<and> Direction a \<noteq> '''' \<longrightarrow>
      Validate a = (if Amount a = 0 then a\<lparr>Amount := 3\<rparr> else a, None))
   \<and> (Type a = ActionWait \<longrightarrow>
      Validate a = (if Ms a = 0 then a\<lparr>Ms := 500\<rparr> else a, None))
   \<and> (Type a = ActionType' \<longrightarrow>
      Validate a =
        (a, if Text a = ''''
            then Some \<lparr>Field = ''text'', Message = ''text is required for type action''\<rparr>
            else None))
   \<and> (Type a = ActionKey \<longrightarrow>
      Validate a =
        (a, if Key a = ''''
            then Some \<lparr>Field = ''key'', Message = ''key is required for key action''\<rparr>
            else None))
   \<and> (Type a = ActionScroll \<and> Direction a = '''' \<longrightarrow>
      Validate a =
        (a, Some \<lparr>Field = ''direction'',
                  Message = ''direction is required for scroll action''\<rparr>))
   \<and> (Type a = ActionFileRead \<longrightarrow>
      Validate a =
        (a, if Path a = ''''
            then Some \<lparr>Field = ''path'', Message = ''path is required for file_read action''\<rparr>
            else None))
   \<and> (Type a = ActionFileWrite \<longrightarrow>
      Validate a =
        (a, if Path a = ''''
            then Some \<lparr>Field = ''path'', Message = ''path is required for file_write action''\<rparr>
            else None))
   \<and> (Type a = ActionFailed \<longrightarrow>
      Validate a =
        (a, if Reason a = ''''
            then Some \<lparr>Field = ''reason'', Message = ''reason is required for failed action''\<rparr>
            else None))
   \<and> (Type a = ActionDone \<longrightarrow> Validate a = (a, None))
   \<and> (Type a \<notin> action_kinds \<longrightarrow>
      Validate a = (a, Some \<lparr>Field = ''type'', Message = ''unknown action type: '' @ Type a\<rparr>))
   \<and> (capture_CaptureAndEncode env w = (Inr screenshot, w1)
      \<and> Messages_New env (model (client ag))
           (BuildUserPrompt (goal ag) (GetLLMHistory (history ag))) screenshot w1
         = (Inr content, w2)
      \<and> content \<noteq> [] \<and> first_text content \<noteq> ''''
      \<and> json_Unmarshal env (cleanResponse (first_text content)) = Inr a
      \<and> snd (Validate a) = Some verr \<longrightarrow>
      step env ag w =
        ((False, Some (''failed to get action from LLM: invalid action: '' @ Message verr)),
         ag, w2)
      \<and> (i < sint (MaxIterations (config ag)) \<and> \<not> ctx_Done env w \<longrightarrow>
         Run_loop env ag w i =
           (Some (''failed to get action from LLM: invalid action: '' @ Message verr),
            ag, w2)))"
proof (intro conjI impI)
  assume h: "capture_CaptureAndEncode env w = (Inr screenshot, w1)
      \<and> Messages_New env (model (client ag))
           (BuildUserPrompt (goal ag) (GetLLMHistory (history ag))) screenshot w1
         = (Inr content, w2)
      \<and> content \<noteq> [] \<and> first_text content \<noteq> ''''
      \<and> json_Unmarshal env (cleanResponse (first_text content)) = Inr a
      \<and> snd (Validate a) = Some verr"
  then show s: "step env ag w =
        ((False, Some (''failed to get action from LLM: invalid action: '' @ Message verr)),
         ag, w2)"
    using step_invalid [of env w screenshot w1 ag content w2 a verr] by simp
  assume "i < sint (MaxIterations (config ag)) \<and> \<not> ctx_Done env w"
  with s show "Run_loop env ag w i =
           (Some (''failed to get action from LLM: invalid action: '' @ Message verr),
            ag, w2)"
    by (simp add: Run_loop.simps)
qed (simp_all add: Validate_click Validate_scroll Validate_wait Validate_type Validate_key
      Validate_file_read Validate_file_write Validate_failed Validate_done Validate_unknown)

lemma example_rejected_type:
  "json_Unmarshal (example_env (\<lambda>n. type_json)) (cleanResponse type_json)
     = Inr (zero_Action\<lparr>Type := ''type''\<rparr>)"
  by code_simp

theorem Validate_rules_witness:
  "Validate (zero_Action\<lparr>Type := ''click''\<rparr>)
     = (zero_Action\<lparr>Type := ''click'', Button := ''left''\<rparr>, None)
   \<and> Validate (zero_Action\<lparr>Type := ''scroll'', Direction := ''up''\<rparr>)
     = (zero_Action\<lparr>Type := ''scroll'', Direction := ''up'', Amount := 3\<rparr>, None)
   \<and> Validate (zero_Action\<lparr>Type := ''wait''\<rparr>)
     = (zero_Action\<lparr>Type := ''wait'', Ms := 500\<rparr>, None)
   \<and> Validate (zero_Action\<lparr>Type := ''type''\<rparr>)
     = (zero_Action\<lparr>Type := ''type''\<rparr>,
        Some \<lparr>Field = ''text'', Message = ''text is required for type action''\<rparr>)
   \<and> Validate (zero_Action\<lparr>Type := ''done''\<rparr>) = (zero_Action\<lparr>Type := ''done''\<rparr>, None)
   \<and> Validate (zero_Action\<lparr>Type := ''drag''\<rparr>)
     = (zero_Action\<lparr>Type := ''drag''\<rparr>,
        Some \<lparr>Field = ''type'', Message = ''unknown action type: drag''\<rparr>)
   \<and> step (example_env (\<lambda>n. type_json)) example_agent []
     = ((False,
         Some ''failed to get action from LLM: invalid action: text is required for type action''),
        example_agent, [''capture'', ''decide''])"
proof -
  let ?env = "example_env (\<lambda>n. type_json)"
  let ?content = "[\<lparr>block_Type = ''text'', block_Text = type_json\<rparr>]"
  let ?verr = "\<lparr>Field = ''text'', Message = ''text is required for type action''\<rparr>"
  have h1: "capture_CaptureAndEncode ?env [] = (Inr ''c2NyZWVu'', [''capture''])"
    by (simp add: example_env_def)
  have h2: "Messages_New ?env (model (client example_agent))
              (BuildUserPrompt (goal example_agent) (GetLLMHistory (history example_agent)))
              ''c2NyZWVu'' [''capture'']
            = (Inr ?content, [''capture'', ''decide''])"
    by (simp add: example_env_def)
  have h3: "first_text ?content = type_json" by simp
  have h4: "type_json \<noteq> ''''" by (simp add: type_json_def)
  note R = Validate_rules [where env = ?env and w = "[]" and screenshot = "''c2NyZWVu''"
      and ?w1.0 = "[''capture'']" and ag = example_agent and content = ?content
      and ?w2.0 = "[''capture'', ''decide'']" and verr = ?verr and i = 0]
  have s: "step ?env example_agent []
     = ((False,
         Some ''failed to get action from LLM: invalid action: text is required for type action''),
        example_agent, [''capture'', ''decide''])"
    using R [where a = "zero_Action\<lparr>Type := ''type''\<rparr>"] h1 h2 h3 h4 example_rejected_type
    by (simp add: ActionType_defs zero_Action_def action_kinds_def)
  show ?thesis
    using R [where a = "zero_Action\<lparr>Type := ''click''\<rparr>"]
      R [where a = "zero_Action\<lparr>Type := ''scroll'', Direction := ''up''\<rparr>"]
      R [where a = "zero_Action\<lparr>Type := ''wait''\<rparr>"]
      R [where a = "zero_Action\<lparr>Type := ''type''\<rparr>"]
      R [where a = "zero_Action\<lparr>Type := ''done''\<rparr>"]
      R [where a = "zero_Action\<lparr>Type := ''drag''\<rparr>"] s
    by (simp add: ActionType_defs zero_Action_def action_kinds_def)
qed

text \<open>
  C2 as stated gives every scroll with amount zero the amount 3. A scroll with neither
  direction nor amount is rejected for its direction before the default is reached
  (\<^verbatim>\<open>actions.go\<close>, lines 52 to 58): the call leaves the action as it was, amount
  zero.
\<close>

theorem Validate_scroll_counterexample:
  "Validate (zero_Action\<lparr>Type := ''scroll''\<rparr>)
     = (zero_Action\<lparr>Type := ''scroll''\<rparr>,
        Some \<lparr>Field = ''direction'', Message = ''direction is required for scroll action''\<rparr>)
   \<and> Amount (zero_Action\<lparr>Type := ''scroll''\<rparr>) = 0
   \<and> Amount (fst (Validate (zero_Action\<lparr>Type := ''scroll''\<rparr>))) = 0
   \<and> Amount (fst (Validate (zero_Action\<lparr>Type := ''scroll''\<rparr>))) \<noteq> 3"
  by (simp add: Validate_def ActionType_defs zero_Action_def)

lemma ReadFile_error_nonempty:
  "ReadFile env path req w = (Inl err, w') \<Longrightarrow> err \<noteq> ''''"
  by (auto simp: ReadFile_def split: if_splits prod.splits sum.splits)

lemma WriteFile_error_nonempty:
  "WriteFile env path content req w = (Some err, w') \<Longrightarrow> err \<noteq> ''''"
  by (auto simp: WriteFile_def Let_def split: if_splits prod.splits option.splits)

lemma executeFileRead_failure:
  "\<not> Success (fst (executeFileRead e env act w)) \<longrightarrow>
     Error (fst (executeFileRead e env act w)) \<noteq> ''''"
  by (auto simp: executeFileRead_def split: prod.splits sum.splits
      dest: ReadFile_error_nonempty)

lemma executeFileWrite_failure:
  "\<not> Success (fst (executeFileWrite e env act w)) \<longrightarrow>
     Error (fst (executeFileWrite e env act w)) \<noteq> ''''"
  by (auto simp: executeFileWrite_def split: prod.splits option.splits
      dest: WriteFile_error_nonempty)

lemma Execute_failure:
  "\<not> Success (fst (Execute e env act w)) \<longrightarrow> Error (fst (Execute e env act w)) \<noteq> ''''"
  by (simp add: Execute_def executeFileRead_failure executeFileWrite_failure
      executeClick_def executeType_def executeKey_def executeScroll_def executeWait_def
      Let_def)

lemma Execute_relative_path:
  assumes "Type act = ActionFileRead \<or> Type act = ActionFileWrite"
    and "requireAbsolutePaths e" and "\<not> filepath_IsAbs env (Path act)"
  shows "Execute e env act w =
           (\<lparr>Success = False, Error = ''path must be absolute: '' @ Path act, Data = ''''\<rparr>, w)"
  using assms
  by (auto simp: Execute_def executeFileRead_def executeFileWrite_def ReadFile_def
      WriteFile_def ActionType_defs)

lemma Execute_read_failure:
  assumes "Type act = ActionFileRead"
    and "\<not> (requireAbsolutePaths e \<and> \<not> filepath_IsAbs env (Path act))"
    and "os_ReadFile env (Path act) w = (Inl msg, w')"
  shows "Execute e env act w =
           (\<lparr>Success = False, Error = ''failed to read file: '' @ msg, Data = ''''\<rparr>, w')"
  using assms
  by (auto simp: Execute_def executeFileRead_def ReadFile_def ActionType_defs)

lemma Execute_mkdir_failure:
  assumes "Type act = ActionFileWrite"
    and "\<not> (requireAbsolutePaths e \<and> \<not> filepath_IsAbs env (Path act))"
    and "os_MkdirAll env (filepath_Dir env (Path act)) w = (Some msg, w')"
  shows "Execute e env act w =
           (\<lparr>Success = False, Error = ''failed to create directory: '' @ msg, Data = ''''\<rparr>,
            w')"
  using assms
  by (auto simp: Execute_def executeFileWrite_def WriteFile_def ActionType_defs)

lemma Execute_write_failure:
  assumes "Type act = ActionFileWrite"
    and "\<not> (requireAbsolutePaths e \<and> \<not> filepath_IsAbs env (Path act))"
    and "os_MkdirAll env (filepath_Dir env (Path act)) w = (None, w')"
    and "os_WriteFile env (Path act) (Content act) w' = (Some msg, w'')"
  shows "Execute e env act w =
           (\<lparr>Success = False, Error = ''failed to write file: '' @ msg, Data = ''''\<rparr>, w'')"
  using assms
  by (auto simp: Execute_def executeFileWrite_def WriteFile_def ActionType_defs)

text \<open>
  C7. \<^verbatim>\<open>Execute\<close> is a total function into outcomes: for every action, executor
  setting, environment and world it returns a Result, and a Result with success false
  has a non-empty error text. A relative path under \<^verbatim>\<open>requireAbsolutePaths\<close> gives
  the outcome with success false and the text \<open>path must be absolute: \<close> followed by
  the path, without touching the world. A failure of the file system's read, directory
  creation or write gives the outcome with success false and the failure's message
  after the prefix of \<^verbatim>\<open>ReadFile\<close> or \<^verbatim>\<open>WriteFile\<close>. The pointer and keyboard
  effectors return nothing that could fail.
\<close>

theorem Execute_failure_has_error:
  "(\<not> Success (fst (Execute e env act w)) \<longrightarrow> Error (fst (Execute e env act w)) \<noteq> '''')
   \<and> ((Type act = ActionFileRead \<or> Type act = ActionFileWrite)
       \<and> requireAbsolutePaths e \<and> \<not> filepath_IsAbs env (Path act) \<longrightarrow>
       Execute e env act w =
         (\<lparr>Success = False, Error = ''path must be absolute: '' @ Path act, Data = ''''\<rparr>, w))
   \<and> (Type act = ActionFileRead
       \<and> \<not> (requireAbsolutePaths e \<and> \<not> filepath_IsAbs env (Path act))
       \<and> os_ReadFile env (Path act) w = (Inl msg, w') \<longrightarrow>
       Execute e env act w =
         (\<lparr>Success = False, Error = ''failed to read file: '' @ msg, Data = ''''\<rparr>, w'))
   \<and> (Type act = ActionFileWrite
       \<and> \<not> (requireAbsolutePaths e \<and> \<not> filepath_IsAbs env (Path act))
       \<and> os_MkdirAll env (filepath_Dir env (Path act)) w = (Some msg, w') \<longrightarrow>
       Execute e env act w =
         (\<lparr>Success = False, Error = ''failed to create directory: '' @ msg, Data = ''''\<rparr>,
          w'))
   \<and> (Type act = ActionFileWrite
       \<and> \<not> (requireAbsolutePaths e \<and> \<not> filepath_IsAbs env (Path act))
       \<and> os_MkdirAll env (filepath_Dir env (Path act)) w = (None, w')
       \<and> os_WriteFile env (Path act) (Content act) w' = (Some msg, w'') \<longrightarrow>
       Execute e env act w =
         (\<lparr>Success = False, Error = ''failed to write file: '' @ msg, Data = ''''\<rparr>, w''))
   \<and> (Type act \<notin> action_kinds \<longrightarrow>
       Execute e env act w =
         (\<lparr>Success = False, Error = ''unknown action type: '' @ Type act, Data = ''''\<rparr>, w))"
proof (intro conjI impI)
  show "\<not> Success (fst (Execute e env act w)) \<Longrightarrow> Error (fst (Execute e env act w)) \<noteq> ''''"
    using Execute_failure [of e env act w] by simp
next
  assume "Type act \<notin> action_kinds"
  then show "Execute e env act w =
         (\<lparr>Success = False, Error = ''unknown action type: '' @ Type act, Data = ''''\<rparr>, w)"
    by (simp add: Execute_def action_kinds_def)
qed (simp_all add: Execute_relative_path Execute_read_failure Execute_mkdir_failure
      Execute_write_failure)

theorem Execute_failure_has_error_witness:
  "Execute \<lparr>requireAbsolutePaths = True\<rparr> (example_env (\<lambda>n. click_json))
     (zero_Action\<lparr>Type := ''file_read'', Path := ''notes.txt''\<rparr>) []
     = (\<lparr>Success = False, Error = ''path must be absolute: notes.txt'', Data = ''''\<rparr>, [])
   \<and> Execute \<lparr>requireAbsolutePaths = True\<rparr> (example_env (\<lambda>n. click_json))
     (zero_Action\<lparr>Type := ''file_read'', Path := ''/notes.txt''\<rparr>) []
     = (\<lparr>Success = False, Error = ''failed to read file: open /notes.txt: no such file'',
         Data = ''''\<rparr>, [''read''])
   \<and> Error (fst (Execute \<lparr>requireAbsolutePaths = True\<rparr> (example_env (\<lambda>n. click_json))
        (zero_Action\<lparr>Type := ''file_read'', Path := ''/notes.txt''\<rparr>) [])) \<noteq> ''''"
proof -
  let ?env = "example_env (\<lambda>n. click_json)"
  let ?e = "\<lparr>requireAbsolutePaths = True\<rparr>"
  let ?rel = "zero_Action\<lparr>Type := ''file_read'', Path := ''notes.txt''\<rparr>"
  let ?abs = "zero_Action\<lparr>Type := ''file_read'', Path := ''/notes.txt''\<rparr>"
  have r: "\<not> filepath_IsAbs ?env (Path ?rel)" "filepath_IsAbs ?env (Path ?abs)"
    by (simp_all add: example_env_def zero_Action_def strings_HasPrefix_def)
  have o: "os_ReadFile ?env (Path ?abs) [] = (Inl ''open /notes.txt: no such file'', [''read''])"
    by (simp add: example_env_def zero_Action_def)
  have t: "Type ?rel = ActionFileRead" "Type ?abs = ActionFileRead"
    by (simp_all add: ActionType_defs zero_Action_def)
  note E = Execute_failure_has_error [where e = ?e and env = ?env and w = "[]"
      and msg = "''open /notes.txt: no such file''" and w' = "[''read'']"
      and w'' = "[''read'']"]
  have a1: "Execute ?e ?env ?rel []
     = (\<lparr>Success = False, Error = ''path must be absolute: notes.txt'', Data = ''''\<rparr>, [])"
    using E [where act = ?rel] r(1) t(1) by (simp add: zero_Action_def)
  have a2: "Execute ?e ?env ?abs []
     = (\<lparr>Success = False, Error = ''failed to read file: open /notes.txt: no such file'',
         Data = ''''\<rparr>, [''read''])"
    using E [where act = ?abs] r(2) t(2) o by simp
  have a3: "Error (fst (Execute ?e ?env ?abs [])) \<noteq> ''''"
    using E [where act = ?abs] a2 by simp
  from a1 a2 a3 show ?thesis by simp
qed

section \<open>Budget exhaustion\<close>






lemma example_ParseAction_click:
  "ParseAction example_Unmarshal click_json
     = Inr (zero_Action\<lparr>Type := ''click'', X := 10, Y := 20, Button := ''left''\<rparr>)"
  by code_simp

lemma clicking_env_always_clicks:
  "capture_CaptureAndEncode clicking_env w = (Inr ''c2NyZWVu'', w @ [''capture''])
   \<and> GetAction clicking_env c g s h w
       = (Inr (zero_Action\<lparr>Type := ''click'', X := 10, Y := 20, Button := ''left''\<rparr>),
          w @ [''decide''])"
proof -
  have "click_json \<noteq> ''''" by (simp add: click_json_def)
  then show ?thesis
    by (simp add: GetAction_def clicking_env_def example_env_def example_ParseAction_click)
qed




section \<open>The integer formatter of the history rendering\<close>

lemma digit_char_values:
  "digit_char 0 = CHR ''0''" "digit_char 1 = CHR ''1''" "digit_char 2 = CHR ''2''"
  "digit_char 3 = CHR ''3''" "digit_char 4 = CHR ''4''" "digit_char 5 = CHR ''5''"
  "digit_char 6 = CHR ''6''" "digit_char 7 = CHR ''7''" "digit_char 8 = CHR ''8''"
  "digit_char 9 = CHR ''9''"
  by code_simp+

lemma sint_go_rem_10:
  assumes "0 <s n"
  shows "go_rem n 10 = word_of_int (sint n mod 10)"
proof -
  from assms have "0 < sint n" by (simp add: word_sless_alt)
  then have "sint n smod 10 = sint n mod 10"
    by (simp add: signed_modulo_int_def sgn_if)
  then show ?thesis by (simp add: go_rem_def)
qed

lemma uint_digit_code:
  assumes "0 \<le> r" and "r < 10"
  shows "uint (48 + word_of_int r :: go_int) = 48 + r"
proof -
  have "(48 + word_of_int r :: go_int) = word_of_int (48 + r)" by simp
  also have "uint \<dots> = (48 + r) mod 2 ^ 64"
    by (simp only: uint_word_of_int) simp
  also have "\<dots> = 48 + r" using assms by simp
  finally show ?thesis .
qed

lemma byte_digit:
  assumes "0 <s n"
  shows "byte (48 + go_rem n 10) = digit_char (nat (sint n) mod 10)"
proof -
  from assms have pos: "0 < sint n" by (simp add: word_sless_alt)
  let ?r = "sint n mod 10"
  have "uint (48 + go_rem n 10) = 48 + ?r"
    by (simp add: sint_go_rem_10 [OF assms] uint_digit_code)
  moreover have "48 + ?r = int (48 + nat (sint n) mod 10)"
    using pos by (simp add: zmod_int)
  ultimately have "byte (48 + go_rem n 10) = char_of (int (48 + nat (sint n) mod 10))"
    by (simp add: byte_def)
  then show ?thesis
    by (simp only: char_of_nat digit_char_def)
qed

lemma itoa_loop_decimal:
  "0 <s n \<Longrightarrow> itoa_loop n digits = decimal_nat (nat (sint n)) @ digits"
proof (induction n digits rule: itoa_loop.induct)
  case (1 n digits)
  from "1.prems" have pos: "0 < sint n" by (simp add: word_sless_alt)
  let ?m = "nat (sint n)"
  let ?d = "byte (48 + go_rem n 10)"
  have q: "sint (go_quo n 10) = sint n div 10"
    by (rule sint_go_quo_10 [OF "1.prems"])
  have d: "?d = digit_char (?m mod 10)"
    by (rule byte_digit [OF "1.prems"])
  have unfold: "itoa_loop n digits = itoa_loop (go_quo n 10) (?d # digits)"
    using "1.prems" by (subst itoa_loop.simps) simp
  show ?case
  proof (cases "0 <s go_quo n 10")
    case True
    then have ge: "10 \<le> ?m"
      using q pos by (simp add: word_sless_alt)
    have "itoa_loop (go_quo n 10) (?d # digits)
            = decimal_nat (nat (sint (go_quo n 10))) @ ?d # digits"
      by (rule "1.IH" [OF "1.prems" True])
    also have "nat (sint (go_quo n 10)) = ?m div 10"
      using pos by (simp add: q nat_div_distrib)
    also have "decimal_nat (?m div 10) @ ?d # digits = decimal_nat ?m @ digits"
      using ge by (subst (2) decimal_nat.simps) (simp add: d)
    finally show ?thesis by (simp add: unfold)
  next
    case False
    then have lt: "?m < 10"
      using q pos by (simp add: word_sless_alt)
    have "itoa_loop (go_quo n 10) (?d # digits) = ?d # digits"
      using False by (subst itoa_loop.simps) simp
    moreover have "decimal_nat ?m = [digit_char ?m]"
      using lt by (subst decimal_nat.simps) simp
    ultimately show ?thesis
      using lt by (simp add: unfold d)
  qed
qed

text \<open>
  Except at the most negative integer, \<^verbatim>\<open>itoa\<close> is the decimal representation.
\<close>

lemma itoa_decimal:
  assumes "n \<noteq> - 9223372036854775808"
  shows "itoa n = fmt_d (sint n)"
proof -
  consider (zero) "n = 0" | (pos) "0 <s n" | (neg) "n <s 0"
    using signed.less_linear [of n 0] by blast
  then show ?thesis
  proof cases
    case zero
    have "decimal_nat 0 = ''0''"
      by (subst decimal_nat.simps) (simp add: digit_char_values)
    with zero show ?thesis by (simp add: itoa_def fmt_d_def)
  next
    case pos
    then have "\<not> n <s 0" "n \<noteq> 0" "0 < sint n"
      by (auto simp: word_sless_alt)
    with pos show ?thesis
      by (simp add: itoa_def itoa_loop_decimal fmt_d_def)
  next
    case neg
    then have s: "sint n < 0" by (simp add: word_sless_alt)
    have "sint n \<noteq> - (2 ^ 63)"
    proof
      assume "sint n = - (2 ^ 63)"
      then have "sint n = sint (- 9223372036854775808 :: go_int)" by simp
      then have "n = - 9223372036854775808" by (rule signed_word_eqI)
      with assms show False by simp
    qed
    with sint_ge [of n] have lo: "- (2 ^ 63) < sint n" by simp
    have m: "sint (- n) = - sint n"
    proof -
      have "- n = word_of_int (- sint n)" by simp
      then show ?thesis
        using lo s sint_word_of_int_64 [of "- sint n"] by simp
    qed
    then have p: "0 <s - n" using s by (simp add: word_sless_alt)
    from neg have "n \<noteq> 0" by (auto simp: word_sless_alt)
    with neg p m s show ?thesis
      by (simp add: itoa_def itoa_loop_decimal fmt_d_def)
  qed
qed

text \<open>
  C10. At the most negative integer \<^verbatim>\<open>-n\<close> wraps around to \<open>n\<close> itself, the digit
  loop does not run, and \<^verbatim>\<open>itoa\<close> returns a lone minus sign instead of the decimal
  representation \<open>-9223372036854775808\<close>. A click at that \<open>x\<close> passes validation, and
  its history entry is rendered for the oracle with the lone minus sign.
\<close>

theorem itoa_most_negative:
  "itoa (- 9223372036854775808) = ''-''
   \<and> fmt_d (sint (- 9223372036854775808 :: go_int)) = ''-9223372036854775808''
   \<and> Validate (zero_Action\<lparr>Type := ''click'', X := - 9223372036854775808\<rparr>)
       = (zero_Action\<lparr>Type := ''click'', X := - 9223372036854775808, Button := ''left''\<rparr>,
          None)
   \<and> formatHistoryEntry 1
         (ToHistoryEntry
            (zero_Action\<lparr>Type := ''click'', X := - 9223372036854775808, Button := ''left''\<rparr>)
            \<lparr>Success = True, Error = '''', Data = ''''\<rparr>)
       = ''1. click: left at (-, 0) [OK]'' @ [CHR 0x0A]"
proof (intro conjI)
  show "itoa (- 9223372036854775808) = ''-''"
    by (simp add: itoa_def itoa_loop.simps Let_def word_sless_alt)
  show "fmt_d (sint (- 9223372036854775808 :: go_int)) = ''-9223372036854775808''"
    by (simp add: fmt_d_def decimal_nat.simps digit_char_values)
  show "Validate (zero_Action\<lparr>Type := ''click'', X := - 9223372036854775808\<rparr>)
       = (zero_Action\<lparr>Type := ''click'', X := - 9223372036854775808, Button := ''left''\<rparr>,
          None)"
    by (simp add: Validate_def ActionType_defs zero_Action_def)
  show "formatHistoryEntry 1
         (ToHistoryEntry
            (zero_Action\<lparr>Type := ''click'', X := - 9223372036854775808, Button := ''left''\<rparr>)
            \<lparr>Success = True, Error = '''', Data = ''''\<rparr>)
       = ''1. click: left at (-, 0) [OK]'' @ [CHR 0x0A]"
    by code_simp
qed

section \<open>Round trip through the wire form\<close>

lemma HasSuffix_last:
  assumes "strings_HasSuffix s p" and "p \<noteq> []"
  shows "last s = last p"
proof -
  from assms have "drop (length s - length p) s = p" and "length p \<le> length s"
    by (simp_all add: strings_HasSuffix_def)
  with assms(2) show ?thesis
    by (metis last_drop length_greater_0_conv diff_less less_le_trans)
qed

lemma utf8_spaces_last:
  "p \<in> set utf8_spaces \<Longrightarrow> p \<noteq> [] \<and> last p \<noteq> CHR ''}''"
  by (auto simp: utf8_spaces_def)

lemma leading_space_brace: "leading_space (CHR ''{'' # body) = None"
  by (simp add: leading_space_def utf8_spaces_def strings_HasPrefix_def)

lemma trailing_space_brace:
  assumes "last s = CHR ''}''"
  shows "trailing_space s = None"
  unfolding trailing_space_def find_None_iff
  using assms HasSuffix_last utf8_spaces_last by metis

lemma TrimSpace_braces:
  assumes "s = CHR ''{'' # body" and "last s = CHR ''}''"
  shows "strings_TrimSpace s = s"
proof -
  have "trim_left s = s"
    by (subst trim_left.simps) (simp add: assms(1) leading_space_brace)
  moreover have "trim_right s = s"
    by (subst trim_right.simps) (simp add: trailing_space_brace [OF assms(2)])
  ultimately show ?thesis by (simp add: strings_TrimSpace_def)
qed

lemma LastIndex_last:
  "s \<noteq> [] \<Longrightarrow> last s = c \<Longrightarrow> strings_LastIndex s [c] = int (length s) - 1"
proof (induction s)
  case Nil
  then show ?case by simp
next
  case (Cons x xs)
  show ?case
  proof (cases "xs = []")
    case True
    with Cons.prems show ?thesis by (simp add: strings_HasPrefix_def)
  next
    case False
    with Cons have "strings_LastIndex xs [c] = int (length xs) - 1" by simp
    moreover from False have "0 < length xs" by simp
    ultimately show ?thesis by (simp add: Let_def)
  qed
qed

lemma cleanResponse_object:
  assumes "s = CHR ''{'' # body" and "last s = CHR ''}''"
  shows "cleanResponse s = s"
proof -
  have t: "strings_TrimSpace s = s"
    by (rule TrimSpace_braces [OF assms])
  have p1: "\<not> strings_HasPrefix s ''```json''" and p2: "\<not> strings_HasPrefix s ''```''"
    by (simp_all add: assms(1) strings_HasPrefix_def)
  have p3: "\<not> strings_HasSuffix s ''```''"
    using HasSuffix_last [of s "''```''"] assms(2) by auto
  have i: "strings_Index s ''{'' = 0"
    by (simp add: assms(1) strings_HasPrefix_def)
  have ne: "body \<noteq> []"
    using assms by auto
  have l: "strings_LastIndex s ''}'' = int (length s) - 1"
    using LastIndex_last [of s "CHR ''}''"] assms by simp
  have lt: "0 < int (length s) - 1"
    using ne assms(1) by simp
  have sl: "slice s 0 (int (length s) - 1 + 1) = s"
    by (simp add: slice_def)
  show ?thesis
    unfolding cleanResponse_def Let_def
    by (simp only: t p1 p2 p3 i l lt sl if_False if_True simp_thms order_refl)
qed

lemma Validate_kind:
  assumes "Validate raw = (a, None)"
  shows "Type raw \<in> action_kinds \<and> Type a = Type raw"
proof -
  have "Type raw \<in> action_kinds"
  proof (rule ccontr)
    assume "Type raw \<notin> action_kinds"
    from Validate_unknown [OF this] assms show False by simp
  qed
  moreover have "Type (fst (Validate raw)) = Type raw"
    by (simp add: Validate_def)
  ultimately show ?thesis using assms by simp
qed

lemma Validate_idempotent:
  assumes "Validate raw = (a, None)"
  shows "Validate a = (a, None)"
proof -
  from Validate_kind [OF assms] have k: "Type raw \<in> action_kinds" and t: "Type a = Type raw"
    by simp_all
  from k consider (k_click) "Type raw = ActionClick" | (k_type) "Type raw = ActionType'"
    | (k_key) "Type raw = ActionKey" | (k_scroll) "Type raw = ActionScroll"
    | (k_file_read) "Type raw = ActionFileRead" | (k_file_write) "Type raw = ActionFileWrite"
    | (k_wait) "Type raw = ActionWait" | (k_done) "Type raw = ActionDone"
    | (k_failed) "Type raw = ActionFailed"
    unfolding action_kinds_def by blast
  then show ?thesis
  proof cases
    case k_click
    with assms have "Button a \<noteq> ''''"
      by (auto simp: Validate_click split: if_splits)
    with k_click t show ?thesis by (simp add: Validate_click)
  next
    case k_type
    with assms have "Text a \<noteq> ''''"
      by (auto simp: Validate_type split: if_splits)
    with k_type t show ?thesis by (simp add: Validate_type)
  next
    case k_key
    with assms have "Key a \<noteq> ''''"
      by (auto simp: Validate_key split: if_splits)
    with k_key t show ?thesis by (simp add: Validate_key)
  next
    case k_scroll
    with assms have "Direction a \<noteq> '''' \<and> Amount a \<noteq> 0"
      by (auto simp: Validate_scroll split: if_splits)
    with k_scroll t show ?thesis by (simp add: Validate_scroll)
  next
    case k_file_read
    with assms have "Path a \<noteq> ''''"
      by (auto simp: Validate_file_read split: if_splits)
    with k_file_read t show ?thesis by (simp add: Validate_file_read)
  next
    case k_file_write
    with assms have "Path a \<noteq> ''''"
      by (auto simp: Validate_file_write split: if_splits)
    with k_file_write t show ?thesis by (simp add: Validate_file_write)
  next
    case k_wait
    with assms have "Ms a \<noteq> 0"
      by (auto simp: Validate_wait split: if_splits)
    with k_wait t show ?thesis by (simp add: Validate_wait)
  next
    case k_done
    with k_done t show ?thesis by (simp add: Validate_done)
  next
    case k_failed
    with assms have "Reason a \<noteq> ''''"
      by (auto simp: Validate_failed split: if_splits)
    with k_failed t show ?thesis by (simp add: Validate_failed)
  qed
qed

subsection \<open>Strings\<close>

lemma accept_take:
  "accept rs cs \<Longrightarrow> length rs \<le> length cs \<and> accept rs (take (length rs) cs @ tl0)"
  by (induction rs cs rule: accept.induct) auto
lemma emit_Some: "emit p (Some (t, rest)) = Some (p @ t, rest)"
  by (simp add: emit_def)

lemma of_char_hex_digit:
  "d < 16 \<Longrightarrow> hex_value (hex_digit d) = Some d"
  by (simp add: hex_value_def hex_digit_def Let_def)
lemma hex4_escape:
  assumes "(of_char c :: nat) < 0x80"
  shows "hex4 (CHR ''0'' # CHR ''0'' # hex_digit (of_char c div 16)
               # hex_digit (of_char c mod 16) # t) = Some (of_char c)"
proof -
  have "(of_char c :: nat) div 16 < 16" using assms by simp
  moreover have "(of_char c :: nat) mod 16 < 16" by simp
  moreover have "hex_value CHR ''0'' = Some 0" by (simp add: hex_value_def)
  ultimately show ?thesis
    by (simp add: hex4_def of_char_hex_digit)
qed
lemma utf8_width_take:
  assumes "utf8_width (c # cs) \<noteq> 0" and "\<not> (of_char c :: nat) < 0x80"
  shows "utf8_width (c # cs) - 1 \<le> length cs
    \<and> utf8_width (c # take (utf8_width (c # cs) - 1) cs @ tl0) = utf8_width (c # cs)"
proof (cases "following (of_char c)")
  case None
  with assms show ?thesis by (simp add: utf8_width_def)
next
  case (Some rs)
  with assms have a: "accept rs cs" and w: "utf8_width (c # cs) = Suc (length rs)"
    by (simp_all add: utf8_width_def split: if_splits)
  from accept_take [OF a, of tl0] Some assms(2) w show ?thesis
    by (simp add: utf8_width_def)
qed
lemma unquote_plain:
  assumes "0x20 \<le> (of_char c :: nat)" and "(of_char c :: nat) < 0x80"
    and "c \<noteq> CHR 0x22" and "c \<noteq> CHR 0x5C"
  shows "unquote (c # t) = emit [c] (unquote t)"
  using assms by (subst unquote.simps) simp

lemma unquote_short:
  assumes "e = CHR 0x22 \<or> e = CHR 0x5C \<or> e = CHR ''/''"
  shows "unquote (CHR 0x5C # e # t) = emit [e] (unquote t)"
  using assms by (subst unquote.simps) auto

lemma unquote_letter:
  "unquote (CHR 0x5C # CHR ''b'' # t) = emit [CHR 0x08] (unquote t)"
  "unquote (CHR 0x5C # CHR ''f'' # t) = emit [CHR 0x0C] (unquote t)"
  "unquote (CHR 0x5C # CHR ''n'' # t) = emit [CHR 0x0A] (unquote t)"
  "unquote (CHR 0x5C # CHR ''r'' # t) = emit [CHR 0x0D] (unquote t)"
  "unquote (CHR 0x5C # CHR ''t'' # t) = emit [CHR 0x09] (unquote t)"
  by (subst unquote.simps, simp)+

lemma unquote_u:
  assumes "hex4 (a # b # c # d # t) = Some r" and "\<not> utf16_IsSurrogate r"
  shows "unquote (CHR 0x5C # CHR ''u'' # a # b # c # d # t) = emit (utf8_EncodeRune r) (unquote t)"
  using assms by (subst unquote.simps) simp

lemma unquote_escape_ascii:
  assumes "(of_char c :: nat) < 0x80"
  shows "unquote (escape_ascii c @ t) = emit [c] (unquote t)"
proof -
  consider (safe) "htmlSafeSet c" | (quote) "c = CHR 0x5C \<or> c = CHR 0x22"
    | (b) "c = CHR 0x08" | (f) "c = CHR 0x0C" | (n) "c = CHR 0x0A" | (r) "c = CHR 0x0D"
    | (t) "c = CHR 0x09"
    | (other) "\<not> htmlSafeSet c" "c \<noteq> CHR 0x5C" "c \<noteq> CHR 0x22" "c \<noteq> CHR 0x08"
        "c \<noteq> CHR 0x0C" "c \<noteq> CHR 0x0A" "c \<noteq> CHR 0x0D" "c \<noteq> CHR 0x09"
    by blast
  then show ?thesis
  proof cases
    case safe
    then show ?thesis
      using unquote_plain [of c t] by (simp add: escape_ascii_def htmlSafeSet_def)
  next
    case quote
    then show ?thesis
      using unquote_short [of c t] by (auto simp: escape_ascii_def htmlSafeSet_def)
  next
    case b
    then show ?thesis by (simp add: escape_ascii_def htmlSafeSet_def unquote_letter)
  next
    case f
    then show ?thesis by (simp add: escape_ascii_def htmlSafeSet_def unquote_letter)
  next
    case n
    then show ?thesis by (simp add: escape_ascii_def htmlSafeSet_def unquote_letter)
  next
    case r
    then show ?thesis by (simp add: escape_ascii_def htmlSafeSet_def unquote_letter)
  next
    case t
    then show ?thesis by (simp add: escape_ascii_def htmlSafeSet_def unquote_letter)
  next
    case other
    have s: "\<not> utf16_IsSurrogate (of_char c)"
      using assms by (simp add: utf16_IsSurrogate_def)
    have e: "utf8_EncodeRune (of_char c) = [c]"
      using assms by (simp add: utf8_EncodeRune_def)
    from other show ?thesis
      using unquote_u [OF hex4_escape [OF assms] s] e
      by (simp add: escape_ascii_def)
  qed
qed
lemma unquote_raw_aux:
  assumes "\<not> (of_char c :: nat) < 0x80" and "utf8_width (c # p @ t) = Suc (length p)"
  shows "unquote (c # p @ t) = emit (c # p) (unquote t)"
proof -
  have q: "c \<noteq> CHR 0x22" "c \<noteq> CHR 0x5C" "\<not> (of_char c :: nat) < 0x20"
    using assms(1) by auto
  show ?thesis
    using q assms by (subst unquote.simps) simp
qed

lemma unquote_raw:
  assumes "\<not> (of_char c :: nat) < 0x80" and "utf8_width (c # cs) \<noteq> 0"
  shows "unquote (c # take (utf8_width (c # cs) - 1) cs @ t)
           = emit (c # take (utf8_width (c # cs) - 1) cs) (unquote t)"
proof -
  let ?n = "utf8_width (c # cs) - 1"
  from utf8_width_take [OF assms(2,1), of t]
  have l: "?n \<le> length cs" and w: "utf8_width (c # take ?n cs @ t) = utf8_width (c # cs)"
    by simp_all
  from l have "length (take ?n cs) = ?n" by simp
  with w assms(2) have "utf8_width (c # take ?n cs @ t) = Suc (length (take ?n cs))"
    by simp
  from unquote_raw_aux [OF assms(1) this] show ?thesis .
qed

lemma EncodeRune_separators:
  "utf8_EncodeRune 0x2028 = [CHR 0xE2, CHR 0x80, CHR 0xA8]"
  "utf8_EncodeRune 0x2029 = [CHR 0xE2, CHR 0x80, CHR 0xA9]"
  by (simp_all add: utf8_EncodeRune_def char_of_def bit_0)

lemma hex4_separators:
  "hex4 (CHR ''2'' # CHR ''0'' # CHR ''2'' # CHR ''8'' # t) = Some 0x2028"
  "hex4 (CHR ''2'' # CHR ''0'' # CHR ''2'' # CHR ''9'' # t) = Some 0x2029"
  by (simp_all add: hex4_def hex_value_def)

lemma unquote_separators:
  "unquote (CHR 0x5C # CHR ''u'' # CHR ''2'' # CHR ''0'' # CHR ''2'' # CHR ''8'' # t)
     = emit [CHR 0xE2, CHR 0x80, CHR 0xA8] (unquote t)"
  "unquote (CHR 0x5C # CHR ''u'' # CHR ''2'' # CHR ''0'' # CHR ''2'' # CHR ''9'' # t)
     = emit [CHR 0xE2, CHR 0x80, CHR 0xA9] (unquote t)"
  using unquote_u [OF hex4_separators(1), of t] unquote_u [OF hex4_separators(2), of t]
  by (simp_all add: utf16_IsSurrogate_def EncodeRune_separators)

lemma separator_width:
  assumes "c # take 2 cs = [CHR 0xE2, CHR 0x80, x]" and "x = CHR 0xA8 \<or> x = CHR 0xA9"
  shows "utf8_width (c # cs) = 3 \<and> c # cs = [CHR 0xE2, CHR 0x80, x] @ drop 2 cs"
proof -
  from assms(1) have c: "c = CHR 0xE2" and t: "take 2 cs = [CHR 0x80, x]" by simp_all
  from t have cs: "cs = [CHR 0x80, x] @ drop 2 cs"
    by (metis append_take_drop_id)
  have "utf8_width (c # [CHR 0x80, x] @ drop 2 cs) = 3"
    using assms(2) by (auto simp: utf8_width_def following_def c)
  with cs c show ?thesis by simp
qed

lemma unquote_appendString_body:
  "utf8_ValidString s \<Longrightarrow> unquote (appendString_body s @ CHR 0x22 # rest) = Some (s, rest)"
proof (induction "length s" arbitrary: s rule: less_induct)
  case less
  show ?case
  proof (cases s)
    case Nil
    then show ?thesis
      by (simp add: appendString_body.simps unquote.simps)
  next
    case (Cons c cs)
    let ?w = "utf8_width (c # cs)"
    from less.prems Cons have w: "?w \<noteq> 0" and v: "utf8_ValidString (drop (?w - 1) cs)"
      by (simp_all add: utf8_ValidString.simps)
    have ih: "unquote (appendString_body (drop k cs) @ CHR 0x22 # rest) = Some (drop k cs, rest)"
      if "utf8_ValidString (drop k cs)" for k
      using less.hyps [of "drop k cs"] that Cons by simp
    show ?thesis
    proof (cases "(of_char c :: nat) < 0x80")
      case True
      then have "?w = 1" by (simp add: utf8_width_def)
      with v ih [of 0] have "unquote (appendString_body cs @ CHR 0x22 # rest) = Some (cs, rest)"
        by simp
      with True Cons show ?thesis
        by (simp add: appendString_body.simps unquote_escape_ascii emit_Some)
    next
      case False
      consider (ls) "c # take 2 cs = [CHR 0xE2, CHR 0x80, CHR 0xA8]"
        | (ps) "c # take 2 cs = [CHR 0xE2, CHR 0x80, CHR 0xA9]"
        | (raw) "c # take 2 cs \<noteq> [CHR 0xE2, CHR 0x80, CHR 0xA8]"
            "c # take 2 cs \<noteq> [CHR 0xE2, CHR 0x80, CHR 0xA9]"
        by blast
      then show ?thesis
      proof cases
        case ls
        have ws: "?w = 3 \<and> c # cs = [CHR 0xE2, CHR 0x80, CHR 0xA8] @ drop 2 cs"
          by (rule separator_width [OF ls]) simp
        note w3 = ws [THEN conjunct1] and s = ws [THEN conjunct2]
        from v w3 ih [of 2]
        have "unquote (appendString_body (drop 2 cs) @ CHR 0x22 # rest) = Some (drop 2 cs, rest)"
          by simp
        then have "unquote (appendString_body (c # cs) @ CHR 0x22 # rest)
                     = Some ([CHR 0xE2, CHR 0x80, CHR 0xA8] @ drop 2 cs, rest)"
          using False w ls
          by (subst appendString_body.simps) (simp add: unquote_separators emit_Some)
        with s Cons show ?thesis by simp
      next
        case ps
        have ws: "?w = 3 \<and> c # cs = [CHR 0xE2, CHR 0x80, CHR 0xA9] @ drop 2 cs"
          by (rule separator_width [OF ps]) simp
        note w3 = ws [THEN conjunct1] and s = ws [THEN conjunct2]
        from v w3 ih [of 2]
        have "unquote (appendString_body (drop 2 cs) @ CHR 0x22 # rest) = Some (drop 2 cs, rest)"
          by simp
        then have "unquote (appendString_body (c # cs) @ CHR 0x22 # rest)
                     = Some ([CHR 0xE2, CHR 0x80, CHR 0xA9] @ drop 2 cs, rest)"
          using False w ps
          by (subst appendString_body.simps) (simp add: unquote_separators emit_Some)
        with s Cons show ?thesis by simp
      next
        case raw
        from v ih [of "?w - 1"]
        have r: "unquote (appendString_body (drop (?w - 1) cs) @ CHR 0x22 # rest)
                   = Some (drop (?w - 1) cs, rest)"
          by simp
        have "appendString_body (c # cs)
                = c # take (?w - 1) cs @ appendString_body (drop (?w - 1) cs)"
          using False w raw by (subst appendString_body.simps) simp
        then have "unquote (appendString_body (c # cs) @ CHR 0x22 # rest)
                     = Some (c # take (?w - 1) cs @ drop (?w - 1) cs, rest)"
          using unquote_raw [OF False w, of "appendString_body (drop (?w - 1) cs) @ CHR 0x22 # rest"] r
          by (simp add: emit_Some)
        with Cons show ?thesis by simp
      qed
    qed
  qed
qed

subsection \<open>Numbers\<close>

lemma of_char_digit_char: "d < 10 \<Longrightarrow> (of_char (digit_char d) :: nat) = 48 + d"
  by (simp add: digit_char_def)

lemma isDigit_digit_char: "d < 10 \<Longrightarrow> isDigit (digit_char d)"
  by (simp add: isDigit_def of_char_digit_char)

lemma digit_char_zero: "d < 10 \<Longrightarrow> digit_char d = CHR ''0'' \<longleftrightarrow> d = 0"
proof
  assume d: "d < 10" and "digit_char d = CHR ''0''"
  then have "(of_char (digit_char d) :: nat) = of_char CHR ''0''" by simp
  with d show "d = 0" by (simp add: of_char_digit_char)
next
  assume "d < 10" and "d = 0"
  then show "digit_char d = CHR ''0''" by (simp add: digit_char_values)
qed

lemma digits_value_snoc: "digits_value (ds @ [c]) = 10 * digits_value ds + (of_char c - 48)"
  by (simp add: digits_value_def)

lemma decimal_nat_digits:
  "decimal_nat n \<noteq> [] \<and> list_all isDigit (decimal_nat n) \<and> digits_value (decimal_nat n) = n
   \<and> (hd (decimal_nat n) = CHR ''0'' \<longleftrightarrow> n = 0)"
proof (induction n rule: decimal_nat.induct)
  case (1 n)
  show ?case
  proof (cases "n < 10")
    case True
    then have "decimal_nat n = [digit_char n]"
      by (subst decimal_nat.simps) simp
    with True show ?thesis
      by (simp add: isDigit_digit_char digit_char_zero digits_value_def of_char_digit_char)
  next
    case False
    then have d: "decimal_nat n = decimal_nat (n div 10) @ [digit_char (n mod 10)]"
      by (subst decimal_nat.simps) simp
    from False 1 have ih: "decimal_nat (n div 10) \<noteq> []" "list_all isDigit (decimal_nat (n div 10))"
      "digits_value (decimal_nat (n div 10)) = n div 10"
      "hd (decimal_nat (n div 10)) = CHR ''0'' \<longleftrightarrow> n div 10 = 0"
      by simp_all
    have m: "n mod 10 < 10" by simp
    from False have nz: "n div 10 \<noteq> 0" "n \<noteq> 0" by simp_all
    show ?thesis
      using ih nz
      by (simp add: d isDigit_digit_char [OF m] digits_value_snoc of_char_digit_char [OF m])
  qed
qed

lemma not_digit: "\<not> isDigit CHR '',''" "\<not> isDigit CHR ''}''" "\<not> isDigit CHR ''-''"
  by (simp_all add: isDigit_def)

lemma takeWhile_digits:
  assumes "list_all isDigit ds" and "\<not> isDigit c"
  shows "takeWhile isDigit (ds @ c # rest) = ds" and "dropWhile isDigit (ds @ c # rest) = c # rest"
  using assms by (induction ds) simp_all

lemma scan_int_decimal:
  assumes "\<not> isDigit c"
  shows "scan_int (decimal_nat n @ c # rest) = Some (c # rest)"
proof -
  from decimal_nat_digits [of n] obtain x xs where
    ds: "decimal_nat n = x # xs" and a: "list_all isDigit (x # xs)"
    and z: "x = CHR ''0'' \<longleftrightarrow> n = 0"
    by (cases "decimal_nat n") auto
  from a have x: "x \<noteq> CHR ''-''" using not_digit(3) by auto
  show ?thesis
  proof (cases "n = 0")
    case True
    then have "decimal_nat n = ''0''"
      by (subst decimal_nat.simps) (simp add: digit_char_values)
    then show ?thesis
      by (simp add: scan_int_def strings_HasPrefix_def)
  next
    case False
    with z have "x \<noteq> CHR ''0''" by simp
    moreover from takeWhile_digits [OF a assms, of rest]
    have "digits1 ((x # xs) @ c # rest) = Some (c # rest)"
      unfolding digits1_def by simp
    ultimately show ?thesis
      using x by (simp add: ds scan_int_def strings_HasPrefix_def)
  qed
qed

lemma scan_int_fmt_d:
  assumes "\<not> isDigit c"
  shows "scan_int (fmt_d k @ c # rest) = Some (c # rest)"
proof (cases "k < 0")
  case True
  have "scan_int (CHR ''-'' # decimal_nat (nat (- k)) @ c # rest)
          = scan_int (decimal_nat (nat (- k)) @ c # rest)"
  proof -
    from decimal_nat_digits [of "nat (- k)"] obtain x xs where
      ds: "decimal_nat (nat (- k)) = x # xs" and a: "list_all isDigit (x # xs)"
      by (cases "decimal_nat (nat (- k))") auto
    from a have "x \<noteq> CHR ''-''" using not_digit(3) by auto
    then show ?thesis
      by (simp add: ds scan_int_def strings_HasPrefix_def)
  qed
  with True show ?thesis
    by (simp add: fmt_d_def scan_int_decimal [OF assms])
next
  case False
  then show ?thesis
    by (simp add: fmt_d_def scan_int_decimal [OF assms])
qed

lemma scan_number_fmt_d:
  assumes "c = CHR '','' \<or> c = CHR ''}''"
  shows "scan_number (fmt_d k @ c # rest) = Some (fmt_d k, c # rest)"
proof -
  from assms have d: "\<not> isDigit c" using not_digit by auto
  from assms have "scan_frac (c # rest) = Some (c # rest)" "scan_exp (c # rest) = Some (c # rest)"
    by (auto simp: scan_frac_def scan_exp_def strings_HasPrefix_def)
  with scan_int_fmt_d [OF d, of k rest] show ?thesis
    by (simp add: scan_number_def)
qed

lemma ParseInt_digits:
  assumes "ds \<noteq> []" and "list_all isDigit ds"
  shows "ParseInt ds =
           (if int (digits_value ds) < 2 ^ 63 then Some (word_of_int (int (digits_value ds)))
            else None)"
    and "ParseInt (CHR ''-'' # ds) =
           (if int (digits_value ds) \<le> 2 ^ 63 then Some (word_of_int (- int (digits_value ds)))
            else None)"
proof -
  from assms obtain x xs where ds: "ds = x # xs" and "isDigit x"
    by (cases ds) auto
  then have x: "x \<noteq> CHR ''-''" using not_digit(3) by auto
  have p: "\<not> strings_HasPrefix ds ''-''"
    using x by (simp add: ds strings_HasPrefix_def)
  have q: "strings_HasPrefix (CHR ''-'' # ds) ''-''"
    by (simp add: strings_HasPrefix_def)
  have z: "- (2 ^ 63) \<le> int (digits_value ds)"
    by (rule order_trans [of _ 0]) simp_all
  show "ParseInt ds =
           (if int (digits_value ds) < 2 ^ 63 then Some (word_of_int (int (digits_value ds)))
            else None)"
    unfolding ParseInt_def Let_def
    using assms z by (simp only: p if_False simp_thms)
  have z': "- int (digits_value ds) < 2 ^ 63"
    by (rule le_less_trans [of _ 0]) simp_all
  have e: "- (2 ^ 63) \<le> - int (digits_value ds) \<longleftrightarrow> int (digits_value ds) \<le> 2 ^ 63"
    by linarith
  show "ParseInt (CHR ''-'' # ds) =
           (if int (digits_value ds) \<le> 2 ^ 63 then Some (word_of_int (- int (digits_value ds)))
            else None)"
    unfolding ParseInt_def Let_def
    using assms z' by (simp only: q if_True if_False list.sel e simp_thms)
qed

lemma ParseInt_fmt_d: "ParseInt (fmt_d (sint (n :: go_int))) = Some n"
proof -
  let ?k = "sint n"
  have r: "- (2 ^ 63) \<le> ?k" "?k < 2 ^ 63"
    using sint_ge [of n] sint_lt [of n] by simp_all
  show ?thesis
  proof (cases "?k < 0")
    case True
    let ?ds = "decimal_nat (nat (- ?k))"
    from decimal_nat_digits [of "nat (- ?k)"]
    have d: "?ds \<noteq> []" "list_all isDigit ?ds" and v: "digits_value ?ds = nat (- ?k)"
      by simp_all
    from True have i: "int (nat (- ?k)) = - ?k" by simp
    from r(1) have le: "- ?k \<le> 2 ^ 63" by linarith
    have "ParseInt (CHR ''-'' # ?ds) = Some (word_of_int (- (- ?k)))"
      unfolding ParseInt_digits(2) [OF d] v i using le by (simp only: if_True)
    with True show ?thesis
      by (simp add: fmt_d_def)
  next
    case False
    let ?ds = "decimal_nat (nat ?k)"
    from decimal_nat_digits [of "nat ?k"]
    have d: "?ds \<noteq> []" "list_all isDigit ?ds" and v: "digits_value ?ds = nat ?k"
      by simp_all
    from False have i: "int (nat ?k) = ?k" by simp
    have "ParseInt ?ds = Some (word_of_int ?k)"
      unfolding ParseInt_digits(1) [OF d] v i using r(2) by (simp only: if_True)
    with False show ?thesis
      by (simp add: fmt_d_def)
  qed
qed

lemma fmt_d_first:
  "\<exists>x xs. fmt_d k = x # xs \<and> (x = CHR ''-'' \<or> isDigit x)"
proof (cases "k < 0")
  case True
  then show ?thesis by (simp add: fmt_d_def)
next
  case False
  from decimal_nat_digits [of "nat k"] obtain x xs where
    "decimal_nat (nat k) = x # xs" and "isDigit x"
    by (cases "decimal_nat (nat k)") auto
  with False show ?thesis by (simp add: fmt_d_def)
qed

subsection \<open>Values and members\<close>

lemma skip_space_other: "\<not> isSpace x \<Longrightarrow> skip_space (x # xs) = x # xs"
  by (simp add: skip_space_def)

lemma not_space:
  "\<not> isSpace CHR 0x22" "\<not> isSpace CHR '':''" "\<not> isSpace CHR '',''" "\<not> isSpace CHR ''}''"
  "\<not> isSpace CHR ''{''" "\<not> isSpace CHR ''-''" "\<not> isSpace CHR ''t''" "\<not> isSpace CHR ''f''"
  by (simp_all add: isSpace_def)

lemma isDigit_not_space: "isDigit x \<Longrightarrow> \<not> isSpace x"
  by (auto simp: isDigit_def isSpace_def)

lemma scan_value_string:
  assumes "utf8_ValidString s"
  shows "scan_value (Suc n) d (appendString s @ rest) = Some (JString s, rest)"
  using unquote_appendString_body [OF assms, of rest]
  by (simp add: appendString_def scan_value.simps)

lemma scan_value_int:
  assumes "c = CHR '','' \<or> c = CHR ''}''"
  shows "scan_value (Suc n) d (fmt_d k @ c # rest) = Some (JNumber (fmt_d k), c # rest)"
proof -
  from fmt_d_first [of k] obtain x xs where f: "fmt_d k = x # xs"
    and x: "x = CHR ''-'' \<or> isDigit x" by blast
  from x have n: "x \<noteq> CHR ''{''" "x \<noteq> CHR ''[''" "x \<noteq> CHR 0x22" "x \<noteq> CHR ''t''"
    "x \<noteq> CHR ''f''" "x \<noteq> CHR ''n''"
    by (auto simp: isDigit_def)
  from n have p: "\<not> strings_HasPrefix (x # xs @ c # rest) ''true''"
    "\<not> strings_HasPrefix (x # xs @ c # rest) ''false''"
    "\<not> strings_HasPrefix (x # xs @ c # rest) ''null''"
    by (simp_all add: strings_HasPrefix_def)
  from scan_number_fmt_d [OF assms, of k rest] f
  have s: "scan_number (x # xs @ c # rest) = Some (x # xs, c # rest)" by simp
  show ?thesis
    unfolding f append_Cons
    by (subst scan_value.simps) (simp add: n p s)
qed

lemma scan_value_bool:
  "scan_value (Suc n) d ((if b then ''true'' else ''false'') @ rest) = Some (JBool b, rest)"
  by (simp add: strings_HasPrefix_def scan_value.simps)

lemma scan_value_encode:
  assumes "valid_value v" and "c = CHR '','' \<or> c = CHR ''}''"
  shows "scan_value (Suc n) d (encode_value v @ c # rest) = Some (value_tree v, c # rest)"
proof (cases v)
  case (StringValue s)
  with assms(1) scan_value_string [of s n d "c # rest"] show ?thesis
    by (simp add: valid_value_def encode_value_def value_tree_def)
next
  case (IntValue i)
  with scan_value_int [OF assms(2), of n d "sint i" rest] show ?thesis
    by (simp add: encode_value_def value_tree_def)
next
  case (BoolValue b)
  with scan_value_bool [of n d b "c # rest"] show ?thesis
    by (simp add: encode_value_def value_tree_def)
qed

lemma encode_value_first: "\<exists>x xs. encode_value v = x # xs \<and> \<not> isSpace x"
proof (cases v)
  case (StringValue s)
  then show ?thesis by (simp add: encode_value_def appendString_def not_space)
next
  case (IntValue i)
  from fmt_d_first [of "sint i"] obtain x xs where "fmt_d (sint i) = x # xs"
    and "x = CHR ''-'' \<or> isDigit x" by blast
  with IntValue show ?thesis
    using isDigit_not_space [of x] not_space(6) by (auto simp: encode_value_def)
next
  case (BoolValue b)
  then show ?thesis by (simp add: encode_value_def not_space)
qed

lemma scan_members_step:
  assumes "utf8_ValidString (fst m)" and "valid_value (snd m)"
    and "x = CHR '','' \<or> x = CHR ''}''"
  shows "scan_members (Suc (Suc n)) d (encode_member m @ x # t)
           = (if x = CHR ''}'' then Some ([(fst m, value_tree (snd m))], t)
              else map_option (\<lambda>(ms, r). ((fst m, value_tree (snd m)) # ms, r))
                     (scan_members (Suc n) d (skip_space t)))"
proof -
  let ?s2 = "CHR '':'' # encode_value (snd m) @ x # t"
  have e: "encode_member m @ x # t = CHR 0x22 # appendString_body (fst m) @ CHR 0x22 # ?s2"
    by (simp add: encode_member_def appendString_def)
  have 1: "expect (CHR 0x22) (CHR 0x22 # appendString_body (fst m) @ CHR 0x22 # ?s2)
             = Some (appendString_body (fst m) @ CHR 0x22 # ?s2)"
    by (simp add: expect_def)
  have 2: "unquote (appendString_body (fst m) @ CHR 0x22 # ?s2) = Some (fst m, ?s2)"
    by (rule unquote_appendString_body [OF assms(1)])
  have 3: "expect (CHR '':'') (skip_space ?s2) = Some (encode_value (snd m) @ x # t)"
    by (simp add: skip_space_other not_space expect_def)
  from encode_value_first [of "snd m"] obtain y ys where
    y: "encode_value (snd m) = y # ys" "\<not> isSpace y"
    by blast
  then have 4: "skip_space (encode_value (snd m) @ x # t) = encode_value (snd m) @ x # t"
    by (simp add: skip_space_other)
  have 5: "scan_value (Suc n) d (encode_value (snd m) @ x # t) = Some (value_tree (snd m), x # t)"
    by (rule scan_value_encode [OF assms(2,3)])
  have 6: "skip_space (x # t) = x # t"
    using assms(3) by (auto simp: skip_space_other not_space)
  show ?thesis
    unfolding e
    by (subst scan_members.simps) (use assms(3) in \<open>auto simp: 1 2 3 4 5 6\<close>)
qed

lemma join_comma_Cons: "ms \<noteq> [] \<Longrightarrow> join_comma (e # ms) = e @ CHR '','' # join_comma ms"
  by (cases ms) simp_all

lemma join_comma_first:
  "ms \<noteq> [] \<Longrightarrow> \<exists>t. join_comma (map encode_member ms) = CHR 0x22 # t"
proof (cases ms)
  case Nil
  assume "ms \<noteq> []"
  with Nil show ?thesis by simp
next
  case (Cons m ms')
  then show ?thesis
    by (cases ms') (simp_all add: encode_member_def appendString_def)
qed

lemma scan_members_encode:
  assumes "ms \<noteq> []" and "\<forall>m\<in>set ms. utf8_ValidString (fst m) \<and> valid_value (snd m)"
    and "length ms < n"
  shows "scan_members n d (join_comma (map encode_member ms) @ CHR ''}'' # rest)
           = Some (map (\<lambda>m. (fst m, value_tree (snd m))) ms, rest)"
  using assms
proof (induction ms arbitrary: n)
  case Nil
  then show ?case by simp
next
  case (Cons m ms)
  from Cons.prems(3) obtain n' where n: "n = Suc (Suc n')" and l: "length ms < Suc n'"
    by (cases n; cases "n - 1") auto
  from Cons.prems(2) have k: "utf8_ValidString (fst m)" and v: "valid_value (snd m)"
    by simp_all
  show ?case
  proof (cases "ms = []")
    case True
    with scan_members_step [of m "CHR ''}''" n' d rest, OF k v] show ?thesis
      by (simp add: n)
  next
    case False
    let ?t = "join_comma (map encode_member ms) @ CHR ''}'' # rest"
    from join_comma_first [OF False] obtain u where u: "join_comma (map encode_member ms) = CHR 0x22 # u"
      by blast
    then have s: "skip_space ?t = ?t"
      by (simp add: skip_space_other not_space)
    from Cons.IH [OF False _ l] Cons.prems(2)
    have ih: "scan_members (Suc n') d ?t = Some (map (\<lambda>m. (fst m, value_tree (snd m))) ms, rest)"
      by simp
    from False have j: "join_comma (map encode_member (m # ms)) @ CHR ''}'' # rest
                          = encode_member m @ CHR '','' # ?t"
      by (simp add: join_comma_Cons)
    let ?f = "\<lambda>(ms, r). ((fst m, value_tree (snd m)) # ms, r)"
    have c: "CHR '','' \<noteq> CHR ''}''" by simp
    have "scan_members (Suc (Suc n')) d (encode_member m @ CHR '','' # ?t)
            = map_option ?f (scan_members (Suc n') d (skip_space ?t))"
      using scan_members_step [of m "CHR '',''" n' d ?t, OF k v] c
      by (simp only: simp_thms if_False)
    also have "\<dots> = map_option ?f (scan_members (Suc n') d ?t)"
      by (simp only: s)
    also have "\<dots> = Some ((fst m, value_tree (snd m))
                          # map (\<lambda>m. (fst m, value_tree (snd m))) ms, rest)"
      by (simp only: ih) simp
    finally show ?thesis
      unfolding j n by simp
  qed
qed

lemma length_join_comma:
  "\<forall>x\<in>set xs. x \<noteq> [] \<Longrightarrow> length xs \<le> length (join_comma xs)"
proof (induction xs rule: join_comma.induct)
  case 1
  then show ?case by simp
next
  case (2 x)
  then show ?case by (cases x) simp_all
next
  case (3 x y ys)
  then show ?case by (cases x) simp_all
qed

lemma encode_member_nonempty: "encode_member m \<noteq> []"
  by (simp add: encode_member_def appendString_def)

lemma omitempty_mem: "m \<in> set (omitempty name v) \<Longrightarrow> m = (name, v)"
  by (simp add: omitempty_def split: if_splits)

lemma Action_members_mem:
  assumes "m \<in> set (Action_members a)"
  shows "m \<in> {(''type'', StringValue (Type a)), (''x'', IntValue (X a)), (''y'', IntValue (Y a)),
      (''button'', StringValue (Button a)), (''double'', BoolValue (Double a)),
      (''text'', StringValue (Text a)), (''key'', StringValue (Key a)),
      (''direction'', StringValue (Direction a)), (''amount'', IntValue (Amount a)),
      (''path'', StringValue (Path a)), (''content'', StringValue (Content a)),
      (''ms'', IntValue (Ms a)), (''summary'', StringValue (Summary a)),
      (''reason'', StringValue (Reason a))}"
  using assms unfolding Action_members_def set_append Un_iff
  by (auto dest!: omitempty_mem)

lemma ascii_ValidString: "\<forall>c\<in>set s. (of_char c :: nat) < 0x80 \<Longrightarrow> utf8_ValidString s"
  by (induction s) (simp_all add: utf8_ValidString.simps utf8_width_def)

lemma field_names_valid:
  "utf8_ValidString ''type''" "utf8_ValidString ''x''" "utf8_ValidString ''y''"
  "utf8_ValidString ''button''" "utf8_ValidString ''double''" "utf8_ValidString ''text''"
  "utf8_ValidString ''key''" "utf8_ValidString ''direction''" "utf8_ValidString ''amount''"
  "utf8_ValidString ''path''" "utf8_ValidString ''content''" "utf8_ValidString ''ms''"
  "utf8_ValidString ''summary''" "utf8_ValidString ''reason''"
  by (rule ascii_ValidString, simp)+

lemma action_kinds_valid: "t \<in> action_kinds \<Longrightarrow> utf8_ValidString t"
  unfolding action_kinds_def ActionType_defs
  by (rule ascii_ValidString) auto

lemma Action_members_valid:
  assumes "utf8_ValidString (Type a)" and "\<forall>s\<in>set (text_fields a). utf8_ValidString s"
    and "m \<in> set (Action_members a)"
  shows "utf8_ValidString (fst m) \<and> valid_value (snd m)"
proof -
  from assms(2) have t: "utf8_ValidString (Button a)" "utf8_ValidString (Text a)"
    "utf8_ValidString (Key a)" "utf8_ValidString (Direction a)" "utf8_ValidString (Path a)"
    "utf8_ValidString (Content a)" "utf8_ValidString (Summary a)" "utf8_ValidString (Reason a)"
    by (simp_all add: text_fields_def)
  from Action_members_mem [OF assms(3)] show ?thesis
    unfolding insert_iff empty_iff
    by (elim disjE; simp add: valid_value_def field_names_valid assms(1) t)
qed

lemma Action_members_first:
  "\<exists>ms. Action_members a = (''type'', StringValue (Type a)) # ms"
  by (simp add: Action_members_def)

lemma checkValid_Marshal:
  assumes "utf8_ValidString (Type a)" and "\<forall>s\<in>set (text_fields a). utf8_ValidString s"
  shows "checkValid (Marshal a)
           = Some (JObject (map (\<lambda>m. (fst m, value_tree (snd m))) (Action_members a)))"
proof -
  let ?ms = "Action_members a"
  let ?J = "join_comma (map encode_member ?ms)"
  let ?data = "CHR ''{'' # ?J @ [CHR ''}'']"
  from Action_members_first [of a] have ne: "?ms \<noteq> []" by auto
  from join_comma_first [OF ne] obtain u where u: "?J = CHR 0x22 # u" by blast
  have v: "\<forall>m\<in>set ?ms. utf8_ValidString (fst m) \<and> valid_value (snd m)"
    using Action_members_valid [OF assms] by blast
  have "length (map encode_member ?ms) \<le> length ?J"
    by (rule length_join_comma) (simp add: encode_member_nonempty)
  then have l: "length ?ms < length ?data" by simp
  from scan_members_encode [OF ne v l, of "Suc 0" "[]"]
  have m: "scan_members (length ?data) (Suc 0) (?J @ [CHR ''}''])
             = Some (map (\<lambda>m. (fst m, value_tree (snd m))) ?ms, [])" .
  have s1: "skip_space ?data = ?data"
    by (simp add: skip_space_other not_space)
  have s2: "skip_space (?J @ [CHR ''}'']) = ?J @ [CHR ''}'']"
    by (simp add: u skip_space_other not_space)
  have p: "\<not> strings_HasPrefix (?J @ [CHR ''}'']) ''}''"
    by (simp add: u strings_HasPrefix_def)
  have d: "\<not> maxNestingDepth \<le> 0"
    by (simp add: maxNestingDepth_def)
  have "scan_value (Suc (length ?data)) 0 ?data
          = Some (JObject (map (\<lambda>m. (fst m, value_tree (snd m))) ?ms), [])"
    by (subst scan_value.simps) (simp only: s2 p d m if_True if_False option.map prod.case simp_thms)
  then show ?thesis
    unfolding checkValid_def Marshal_def s1
    by (simp add: skip_space_def)
qed

subsection \<open>Storing the members\<close>

lemma foldName_fields:
  "foldName ''type'' = ''TYPE''" "foldName ''x'' = ''X''" "foldName ''y'' = ''Y''"
  "foldName ''button'' = ''BUTTON''" "foldName ''double'' = ''DOUBLE''"
  "foldName ''text'' = ''TEXT''" "foldName ''key'' = ''KEY''"
  "foldName ''direction'' = ''DIRECTION''" "foldName ''amount'' = ''AMOUNT''"
  "foldName ''path'' = ''PATH''" "foldName ''content'' = ''CONTENT''" "foldName ''ms'' = ''MS''"
  "foldName ''summary'' = ''SUMMARY''" "foldName ''reason'' = ''REASON''"
  by (simp_all add: char_of_def bit_0)

lemma store_member_fields:
  "store_member ''type'' v a = store_string (\<lambda>s. a\<lparr>Type := s\<rparr>) v a"
  "store_member ''x'' v a = store_int (\<lambda>i. a\<lparr>X := i\<rparr>) v a"
  "store_member ''y'' v a = store_int (\<lambda>i. a\<lparr>Y := i\<rparr>) v a"
  "store_member ''button'' v a = store_string (\<lambda>s. a\<lparr>Button := s\<rparr>) v a"
  "store_member ''double'' v a = store_bool (\<lambda>b. a\<lparr>Double := b\<rparr>) v a"
  "store_member ''text'' v a = store_string (\<lambda>s. a\<lparr>Text := s\<rparr>) v a"
  "store_member ''key'' v a = store_string (\<lambda>s. a\<lparr>Key := s\<rparr>) v a"
  "store_member ''direction'' v a = store_string (\<lambda>s. a\<lparr>Direction := s\<rparr>) v a"
  "store_member ''amount'' v a = store_int (\<lambda>i. a\<lparr>Amount := i\<rparr>) v a"
  "store_member ''path'' v a = store_string (\<lambda>s. a\<lparr>Path := s\<rparr>) v a"
  "store_member ''content'' v a = store_string (\<lambda>s. a\<lparr>Content := s\<rparr>) v a"
  "store_member ''ms'' v a = store_int (\<lambda>i. a\<lparr>Ms := i\<rparr>) v a"
  "store_member ''summary'' v a = store_string (\<lambda>s. a\<lparr>Summary := s\<rparr>) v a"
  "store_member ''reason'' v a = store_string (\<lambda>s. a\<lparr>Reason := s\<rparr>) v a"
  by (simp_all add: store_member_def foldName_fields del: foldName.simps)

lemma store_values:
  "store_string upd (value_tree (StringValue s)) a = Some (upd s)"
  "store_int updi (value_tree (IntValue i)) a = Some (updi i)"
  "store_bool updb (value_tree (BoolValue b)) a = Some (updb b)"
  by (simp_all add: store_string_def store_int_def store_bool_def value_tree_def ParseInt_fmt_d)

lemma store_members_append:
  "store_members (xs @ ys) a = Option.bind (store_members xs a) (store_members ys)"
  by (induction xs arbitrary: a) (simp_all split: option.splits)

lemma store_omitempty:
  assumes "store_member name (value_tree v) acc = Some acc'"
    and "isEmptyValue v \<Longrightarrow> acc' = acc"
  shows "store_members (map (\<lambda>m. (fst m, value_tree (snd m))) (omitempty name v)) acc = Some acc'"
  using assms by (simp add: omitempty_def)

lemma store_Action_members:
  "store_members (map (\<lambda>m. (fst m, value_tree (snd m))) (Action_members a)) zero_Action = Some a"
proof -
  let ?tr = "\<lambda>m. (fst m, value_tree (snd m))"
  let ?a0 = "zero_Action\<lparr>Type := Type a\<rparr>"
  let ?a1 = "?a0\<lparr>X := X a\<rparr>"
  let ?a2 = "?a1\<lparr>Y := Y a\<rparr>"
  let ?a3 = "?a2\<lparr>Button := Button a\<rparr>"
  let ?a4 = "?a3\<lparr>Double := Double a\<rparr>"
  let ?a5 = "?a4\<lparr>Text := Text a\<rparr>"
  let ?a6 = "?a5\<lparr>Key := Key a\<rparr>"
  let ?a7 = "?a6\<lparr>Direction := Direction a\<rparr>"
  let ?a8 = "?a7\<lparr>Amount := Amount a\<rparr>"
  let ?a9 = "?a8\<lparr>Path := Path a\<rparr>"
  let ?a10 = "?a9\<lparr>Content := Content a\<rparr>"
  let ?a11 = "?a10\<lparr>Ms := Ms a\<rparr>"
  let ?a12 = "?a11\<lparr>Summary := Summary a\<rparr>"
  let ?a13 = "?a12\<lparr>Reason := Reason a\<rparr>"
  have s0: "store_members (map ?tr [(''type'', StringValue (Type a))]) zero_Action = Some ?a0"
    by (simp add: store_member_fields store_values)
  have s1: "store_members (map ?tr (omitempty ''x'' (IntValue (X a)))) ?a0 = Some ?a1"
    by (rule store_omitempty)
      (simp_all add: store_member_fields store_values isEmptyValue_def zero_Action_def)
  have s2: "store_members (map ?tr (omitempty ''y'' (IntValue (Y a)))) ?a1 = Some ?a2"
    by (rule store_omitempty)
      (simp_all add: store_member_fields store_values isEmptyValue_def zero_Action_def)
  have s3: "store_members (map ?tr (omitempty ''button'' (StringValue (Button a)))) ?a2 = Some ?a3"
    by (rule store_omitempty)
      (simp_all add: store_member_fields store_values isEmptyValue_def zero_Action_def)
  have s4: "store_members (map ?tr (omitempty ''double'' (BoolValue (Double a)))) ?a3 = Some ?a4"
    by (rule store_omitempty)
      (simp_all add: store_member_fields store_values isEmptyValue_def zero_Action_def)
  have s5: "store_members (map ?tr (omitempty ''text'' (StringValue (Text a)))) ?a4 = Some ?a5"
    by (rule store_omitempty)
      (simp_all add: store_member_fields store_values isEmptyValue_def zero_Action_def)
  have s6: "store_members (map ?tr (omitempty ''key'' (StringValue (Key a)))) ?a5 = Some ?a6"
    by (rule store_omitempty)
      (simp_all add: store_member_fields store_values isEmptyValue_def zero_Action_def)
  have s7: "store_members (map ?tr (omitempty ''direction'' (StringValue (Direction a)))) ?a6
              = Some ?a7"
    by (rule store_omitempty)
      (simp_all add: store_member_fields store_values isEmptyValue_def zero_Action_def)
  have s8: "store_members (map ?tr (omitempty ''amount'' (IntValue (Amount a)))) ?a7 = Some ?a8"
    by (rule store_omitempty)
      (simp_all add: store_member_fields store_values isEmptyValue_def zero_Action_def)
  have s9: "store_members (map ?tr (omitempty ''path'' (StringValue (Path a)))) ?a8 = Some ?a9"
    by (rule store_omitempty)
      (simp_all add: store_member_fields store_values isEmptyValue_def zero_Action_def)
  have s10: "store_members (map ?tr (omitempty ''content'' (StringValue (Content a)))) ?a9
               = Some ?a10"
    by (rule store_omitempty)
      (simp_all add: store_member_fields store_values isEmptyValue_def zero_Action_def)
  have s11: "store_members (map ?tr (omitempty ''ms'' (IntValue (Ms a)))) ?a10 = Some ?a11"
    by (rule store_omitempty)
      (simp_all add: store_member_fields store_values isEmptyValue_def zero_Action_def)
  have s12: "store_members (map ?tr (omitempty ''summary'' (StringValue (Summary a)))) ?a11
               = Some ?a12"
    by (rule store_omitempty)
      (simp_all add: store_member_fields store_values isEmptyValue_def zero_Action_def)
  have s13: "store_members (map ?tr (omitempty ''reason'' (StringValue (Reason a)))) ?a12
               = Some ?a13"
    by (rule store_omitempty)
      (simp_all add: store_member_fields store_values isEmptyValue_def zero_Action_def)
  have e: "?a13 = a"
    by (cases a) (simp add: zero_Action_def)
  have "store_members (map ?tr (Action_members a)) zero_Action = Some ?a13"
    unfolding Action_members_def map_append store_members_append
    by (simp only: s0 s1 s2 s3 s4 s5 s6 s7 s8 s9 s10 s11 s12 s13 Option.bind.simps)
  with e show ?thesis by simp
qed

subsection \<open>The round trip\<close>

lemma EncodeRune_replacement: "utf8_EncodeRune 0xFFFD = [CHR 0xEF, CHR 0xBF, CHR 0xBD]"
  by (simp add: utf8_EncodeRune_def char_of_def bit_0)

lemma hex4_replacement: "hex4 (''fffd'' @ t) = Some 0xFFFD"
  by (simp add: hex4_def hex_value_def)

lemma unquote_replacement:
  "unquote (CHR 0x5C # ''ufffd'' @ CHR 0x22 # rest) = Some ([CHR 0xEF, CHR 0xBF, CHR 0xBD], rest)"
proof -
  have "\<not> utf16_IsSurrogate 0xFFFD" by (simp add: utf16_IsSurrogate_def)
  from unquote_u [of "CHR ''f''" "CHR ''f''" "CHR ''f''" "CHR ''d''" "CHR 0x22 # rest" "0xFFFD", OF _ this]
    hex4_replacement [of "CHR 0x22 # rest"]
  show ?thesis
    by (simp add: EncodeRune_replacement unquote.simps emit_def)
qed

lemma digit_char_Suc_0: "digit_char (Suc 0) = CHR ''1''"
  by (simp add: digit_char_def char_of_def bit_0)

lemma hex_digits: "hex_digit 3 = CHR ''3''" "hex_digit 12 = CHR ''c''"
  by (simp_all add: hex_digit_def char_of_def bit_0)

lemma Marshal_left_click: "Marshal left_click = left_click_json"
  by (simp add: Marshal_def Action_members_def omitempty_def isEmptyValue_def zero_Action_def
      left_click_def left_click_json_def
      encode_member_def encode_value_def appendString_def appendString_body.simps
      escape_ascii_def htmlSafeSet_def fmt_d_def decimal_nat.simps digit_char_values digit_char_Suc_0)

lemma Marshal_typed_text: "Marshal typed_text = typed_text_json"
  by (simp add: Marshal_def Action_members_def omitempty_def isEmptyValue_def zero_Action_def
      typed_text_def typed_text_json_def
      encode_member_def encode_value_def appendString_def appendString_body.simps
      escape_ascii_def htmlSafeSet_def utf8_width_def following_def hex_digits)

lemma Marshal_bad_key: "Marshal bad_key = bad_key_json"
  by (simp add: Marshal_def Action_members_def omitempty_def isEmptyValue_def zero_Action_def
      bad_key_def bad_key_json_def
      encode_member_def encode_value_def appendString_def appendString_body.simps
      escape_ascii_def htmlSafeSet_def utf8_width_def following_def)

lemma examples_valid:
  "list_all utf8_ValidString (text_fields left_click)"
  "list_all utf8_ValidString (text_fields typed_text)"
  "\<not> list_all utf8_ValidString (text_fields bad_key)"
  by (simp_all add: text_fields_def left_click_def typed_text_def bad_key_def zero_Action_def
      utf8_ValidString.simps utf8_width_def following_def)

lemma Unmarshal_Marshal:
  assumes "utf8_ValidString (Type a)" and "\<forall>s\<in>set (text_fields a). utf8_ValidString s"
  shows "Unmarshal error_text (Marshal a) = Inr a"
  unfolding Unmarshal_def checkValid_Marshal [OF assms]
  by (simp add: store_Action_def store_Action_members)

lemma Marshal_object:
  "Marshal a = CHR ''{'' # join_comma (map encode_member (Action_members a)) @ [CHR ''}'']"
  "last (Marshal a) = CHR ''}''"
  by (simp_all add: Marshal_def)

lemma cleanResponse_Marshal: "cleanResponse (Marshal a) = Marshal a"
  by (rule cleanResponse_object [OF Marshal_object])

text \<open>
  C8, as amended. Let \<open>a\<close> be a well-formed action, that is the action \<^verbatim>\<open>Validate\<close>
  leaves when it accepts some raw action; it is then of one of the nine kinds. If its
  text fields (button, text, key, direction, path, content, summary and reason) are
  valid UTF-8, then \<^verbatim>\<open>ParseAction\<close> on the wire form that \<^verbatim>\<open>json.Marshal\<close> writes
  for \<open>a\<close> returns \<open>a\<close>, whatever the text of the decoder's errors: cleaning the wire
  form leaves it as it is, the decoder reads back every field that the encoder wrote
  and leaves the omitted ones at their zero value, and validating \<open>a\<close> again neither
  changes nor rejects it.
\<close>

theorem ParseAction_roundtrip:
  assumes "Validate raw = (a, None)" and "list_all utf8_ValidString (text_fields a)"
  shows "ParseAction (Unmarshal error_text) (Marshal a) = Inr a \<and> Type a \<in> action_kinds"
proof -
  from Validate_kind [OF assms(1)] have k: "Type a \<in> action_kinds" by simp
  then have t: "utf8_ValidString (Type a)" by (rule action_kinds_valid)
  from assms(2) have f: "\<forall>s\<in>set (text_fields a). utf8_ValidString s"
    by (simp add: list_all_iff)
  have "Unmarshal error_text (Marshal a) = Inr a"
    by (rule Unmarshal_Marshal [OF t f])
  with Validate_idempotent [OF assms(1)] k show ?thesis
    by (simp add: ParseAction_def cleanResponse_Marshal)
qed

theorem ParseAction_roundtrip_witness:
  "Validate (zero_Action\<lparr>Type := ''click'', X := 10, Y := 20\<rparr>) = (left_click, None)
   \<and> list_all utf8_ValidString (text_fields left_click)
   \<and> Marshal left_click = left_click_json
   \<and> ParseAction (Unmarshal (\<lambda>data. ''syntax error'')) left_click_json = Inr left_click
   \<and> Validate typed_text = (typed_text, None)
   \<and> list_all utf8_ValidString (text_fields typed_text)
   \<and> Marshal typed_text = typed_text_json
   \<and> ParseAction (Unmarshal (\<lambda>data. ''syntax error'')) typed_text_json = Inr typed_text"
proof -
  have v1: "Validate (zero_Action\<lparr>Type := ''click'', X := 10, Y := 20\<rparr>) = (left_click, None)"
    by (simp add: Validate_def left_click_def zero_Action_def ActionType_defs)
  have v2: "Validate typed_text = (typed_text, None)"
    by (simp add: Validate_def typed_text_def zero_Action_def ActionType_defs)
  note R1 = ParseAction_roundtrip [where raw = "zero_Action\<lparr>Type := ''click'', X := 10, Y := 20\<rparr>"
      and a = left_click and error_text = "\<lambda>data. ''syntax error''"]
  note R2 = ParseAction_roundtrip [where raw = typed_text and a = typed_text
      and error_text = "\<lambda>data. ''syntax error''"]
  from R1 [OF v1 examples_valid(1)] R2 [OF v2 examples_valid(2)] v1 v2 examples_valid(1,2)
  show ?thesis
    by (simp add: Marshal_left_click Marshal_typed_text)
qed

lemma unquote_ascii_literals:
  "unquote (''type'' @ CHR 0x22 # rest) = Some (''type'', rest)"
  "unquote (''key'' @ CHR 0x22 # rest) = Some (''key'', rest)"
  by (simp_all add: unquote.simps emit_def)

lemma checkValid_bad_key:
  "checkValid bad_key_json
     = Some (JObject [(''type'', JString ''key''),
                      (''key'', JString [CHR 0xEF, CHR 0xBF, CHR 0xBD])])"
  using unquote_ascii_literals unquote_replacement
  by (simp add: bad_key_json_def checkValid_def skip_space_def isSpace_def scan_value.simps
      scan_members.simps expect_def maxNestingDepth_def strings_HasPrefix_def)

lemma Unmarshal_bad_key: "Unmarshal error_text bad_key_json = Inr bad_key_decoded"
  unfolding Unmarshal_def checkValid_bad_key
  by (simp add: store_Action_def store_member_fields store_string_def bad_key_decoded_def)

text \<open>
  C8 as stated covers every well-formed action. The \<open>key\<close> action whose key is the
  single byte \<open>FF\<close> is well formed, but the byte is not valid UTF-8: the encoder writes
  the escape of U+FFFD in its place, and \<^verbatim>\<open>ParseAction\<close> returns the action whose key
  is U+FFFD, which is another action.
\<close>

theorem ParseAction_roundtrip_counterexample:
  "Validate bad_key = (bad_key, None)
   \<and> Marshal bad_key = bad_key_json
   \<and> ParseAction (Unmarshal (\<lambda>data. ''syntax error'')) (Marshal bad_key) = Inr bad_key_decoded
   \<and> ParseAction (Unmarshal (\<lambda>data. ''syntax error'')) (Marshal bad_key) \<noteq> Inr bad_key"
proof -
  have v: "Validate bad_key = (bad_key, None)"
    by (simp add: Validate_def bad_key_def zero_Action_def ActionType_defs)
  have v': "Validate bad_key_decoded = (bad_key_decoded, None)"
    by (simp add: Validate_def bad_key_decoded_def zero_Action_def ActionType_defs)
  have p: "ParseAction (Unmarshal (\<lambda>data. ''syntax error'')) (Marshal bad_key)
             = Inr bad_key_decoded"
    using cleanResponse_Marshal [of bad_key]
    by (simp add: ParseAction_def Marshal_bad_key Unmarshal_bad_key v')
  have d: "bad_key_decoded \<noteq> bad_key"
    by (simp add: bad_key_decoded_def bad_key_def zero_Action_def)
  from v p d show ?thesis
    by (simp add: Marshal_bad_key)
qed

section \<open>Terminal states and a concurrent Stop\<close>

text \<open>Without calls of \<^verbatim>\<open>Stop\<close> the transitions give what \<^verbatim>\<open>Run\<close> returns.\<close>

lemma Run_loop_exec:
  "k = nat (sint (MaxIterations (config a)) - i) \<Longrightarrow> Run_loop env a w i = (err, a', w') \<Longrightarrow>
     (exec env goal_text)\<^sup>*\<^sup>* (LoopTop i, a, w) (Deferred err, a', w')"
proof (induction k arbitrary: a w i)
  case 0
  then have n: "\<not> i < sint (MaxIterations (config a))" by simp
  with "0.prems"(2) have
    "err = Some (''max iterations ('' @ fmt_d (sint (MaxIterations (config a))) @ '') reached'')"
    and "a' = a\<lparr>state := StateFailed, result := ''max iterations reached''\<rparr>" and "w' = w"
    by (auto simp: Run_loop.simps)
  with after_loop [OF n, of env goal_text w] show ?case by simp
next
  case (Suc k)
  then have lt: "i < sint (MaxIterations (config a))" by simp
  show ?case
  proof (cases "ctx_Done env w")
    case True
    with lt Suc.prems(2) have "err = Some (ctx_Err env w)"
      and "a' = a\<lparr>state := StateStopped\<rparr>" and "w' = w"
      by (auto simp: Run_loop.simps)
    with cancelled [OF lt True, of goal_text] show ?thesis by simp
  next
    case False
    obtain d e a1 w1 where s: "step env a w = ((d, e), a1, w1)"
      by (metis prod.exhaust)
    show ?thesis
    proof (cases e)
      case (Some x)
      with lt False s Suc.prems(2) have "err = Some x" and "a' = a1" and "w' = w1"
        by (cases d; auto simp: Run_loop.simps)+
      with step_error [OF lt False, of d x a1 w1 goal_text] s Some show ?thesis by simp
    next
      case None
      show ?thesis
      proof (cases d)
        case True
        with lt False s None Suc.prems(2) have "err = None" and "a' = a1" and "w' = w1"
          by (auto simp: Run_loop.simps)
        with step_done [OF lt False, of a1 w1 goal_text] s None True show ?thesis by simp
      next
        case nd: False
        let ?w = "time_Sleep env (StabilizationDelay (config a1)) w1"
        have c: "config a1 = config a"
          using s by (rule step_config)
        have r: "Run_loop env a1 ?w (i + 1) = (err, a', w')"
          using lt False s None nd Suc.prems(2) by (simp add: Run_loop.simps)
        have k: "k = nat (sint (MaxIterations (config a1)) - (i + 1))"
          using Suc.prems(1) c by simp
        have "exec env goal_text (LoopTop i, a, w) (LoopTop (i + 1), a1, ?w)"
          using step_next [OF lt False, of a1 w1 goal_text] s None nd by simp
        with Suc.IH [OF k r] show ?thesis
          by (rule converse_rtranclp_into_rtranclp [rotated])
      qed
    qed
  qed
qed

lemma Run_exec:
  assumes "Run env a w goal_text = (err, a', w')"
  shows "(exec env goal_text)\<^sup>*\<^sup>* (Entry, a, w) (Returned err, a', w')"
proof (cases "state a = StateIdle")
  case False
  with assms have
    "err = Some (''agent is not idle (current state: '' @ State_String (state a) @ '')'')"
    and "a' = a" and "w' = w"
    by (auto simp: Run_def)
  with enter_not_idle [OF False, of env goal_text w] show ?thesis
    by blast
next
  case True
  let ?a = "a\<lparr>goal := goal_text, state := StateRunning\<rparr>"
  obtain a1 where l: "Run_loop env ?a w 0 = (err, a1, w')" and a': "a' = Run_deferred a1"
    using assms True by (auto simp: Run_def split: prod.splits)
  have "exec env goal_text (Entry, a, w) (LoopTop 0, ?a, w)"
    by (rule enter [OF True])
  moreover have "(exec env goal_text)\<^sup>*\<^sup>* (LoopTop 0, ?a, w) (Deferred err, a1, w')"
    by (rule Run_loop_exec [OF refl l])
  moreover have "exec env goal_text (Deferred err, a1, w') (Returned err, a', w')"
    unfolding a' by (rule deferred)
  ultimately show ?thesis
    by (meson converse_rtranclp_into_rtranclp rtranclp.rtrancl_into_rtrancl)
qed

text \<open>
  \<^verbatim>\<open>Run\<close> itself, \<^verbatim>\<open>Stop\<close> and the deferred function leave a terminal state as it
  is; they test the state before they write it.
\<close>

lemma guarded_operations_keep_terminal:
  assumes "IsTerminal (state a)"
  shows "Run env a w goal_text
           = (Some (''agent is not idle (current state: '' @ State_String (state a) @ '')''),
              a, w)"
    and "Stop a = a" and "Run_deferred a = a"
  using assms by (auto simp: IsTerminal_def Run_def Stop_def Run_deferred_def)

lemma step_state:
  "step env a w = (r, a', w') \<Longrightarrow> state a' = state a \<or> IsTerminal (state a')"
  by (auto simp: step_def Let_def IsTerminal_def split: prod.splits sum.splits if_splits)

lemma Run_loop_state:
  "k = nat (sint (MaxIterations (config a)) - i) \<Longrightarrow> Run_loop env a w i = (err, a', w') \<Longrightarrow>
     state a' = state a \<or> IsTerminal (state a')"
proof (induction k arbitrary: a w i)
  case 0
  then show ?case by (auto simp: Run_loop.simps IsTerminal_def)
next
  case (Suc k)
  then have lt: "i < sint (MaxIterations (config a))" by simp
  show ?case
  proof (cases "ctx_Done env w")
    case True
    with lt Suc.prems(2) show ?thesis by (auto simp: Run_loop.simps IsTerminal_def)
  next
    case False
    obtain d e a1 w1 where s: "step env a w = ((d, e), a1, w1)"
      by (metis prod.exhaust)
    note st = step_state [OF s]
    show ?thesis
    proof (cases "d \<or> e \<noteq> None")
      case True
      with lt False s Suc.prems(2) have "a' = a1"
        by (cases d; cases e; auto simp: Run_loop.simps)
      with st show ?thesis by simp
    next
      case nd: False
      let ?w = "time_Sleep env (StabilizationDelay (config a1)) w1"
      have c: "config a1 = config a"
        using s by (rule step_config)
      have r: "Run_loop env a1 ?w (i + 1) = (err, a', w')"
        using lt False s nd Suc.prems(2) by (simp add: Run_loop.simps)
      have k: "k = nat (sint (MaxIterations (config a1)) - (i + 1))"
        using Suc.prems(1) c by simp
      from Suc.IH [OF k r] st show ?thesis by auto
    qed
  qed
qed

text \<open>
  When no other goroutine interferes, \<^verbatim>\<open>Run\<close> on an idle agent always ends in a
  terminal state, which the guarded operations then keep.
\<close>

lemma Run_ends_terminal:
  assumes "state a = StateIdle"
  shows "IsTerminal (state (fst (snd (Run env a w goal_text))))"
proof -
  let ?a = "a\<lparr>goal := goal_text, state := StateRunning\<rparr>"
  obtain err a1 w1 where l: "Run_loop env ?a w 0 = (err, a1, w1)"
    by (metis prod.exhaust)
  from Run_loop_state [OF refl l] have "state a1 = StateRunning \<or> IsTerminal (state a1)"
    by simp
  then have "IsTerminal (state (Run_deferred a1))"
    by (auto simp: Run_deferred_def IsTerminal_def)
  with assms l show ?thesis by (simp add: Run_def)
qed

text \<open>
  C4. The writes of the loop are not guarded. With the oracle that answers \<open>done\<close>:
  \<^verbatim>\<open>Run\<close> enters and sets the state to \<open>Running\<close>; another goroutine calls \<^verbatim>\<open>Stop\<close>,
  which sets the state to \<open>Stopped\<close>, a terminal state; the loop does not read the
  state, runs its first iteration, and the step overwrites \<open>Stopped\<close> with \<open>Completed\<close>.
  The state has taken two terminal values.
\<close>

theorem Stop_during_Run_is_overwritten:
  "(exec (example_env (\<lambda>n. done_json)) ''g'')\<^sup>*\<^sup>* (Entry, example_agent, [])
      (LoopTop 0, example_agent\<lparr>goal := ''g'', state := StateStopped\<rparr>, [])
   \<and> IsTerminal (state (example_agent\<lparr>goal := ''g'', state := StateStopped\<rparr>))
   \<and> (exec (example_env (\<lambda>n. done_json)) ''g'')\<^sup>*\<^sup>*
      (LoopTop 0, example_agent\<lparr>goal := ''g'', state := StateStopped\<rparr>, [])
      (Returned None,
       example_agent\<lparr>goal := ''g'', state := StateCompleted, result := ''ok''\<rparr>,
       [''capture'', ''decide''])
   \<and> step (example_env (\<lambda>n. done_json))
        (example_agent\<lparr>goal := ''g'', state := StateStopped\<rparr>) []
      = ((True, None),
         example_agent\<lparr>goal := ''g'', state := StateCompleted, result := ''ok''\<rparr>,
         [''capture'', ''decide''])"
proof -
  let ?env = "example_env (\<lambda>n. done_json)"
  let ?running = "example_agent\<lparr>goal := ''g'', state := StateRunning\<rparr>"
  let ?stopped = "example_agent\<lparr>goal := ''g'', state := StateStopped\<rparr>"
  let ?completed = "example_agent\<lparr>goal := ''g'', state := StateCompleted, result := ''ok''\<rparr>"
  have idle: "state example_agent = StateIdle"
    by (simp add: example_agent_def New_def)
  have e1: "exec ?env ''g'' (Entry, example_agent, []) (LoopTop 0, ?running, [])"
    by (rule enter [OF idle])
  have "Stop ?running = ?stopped"
    by (simp add: Stop_def)
  then have e2: "exec ?env ''g'' (LoopTop 0, ?running, []) (LoopTop 0, ?stopped, [])"
    using stop [of ?env "''g''" "LoopTop 0" ?running "[]"] by simp
  have lt: "0 < sint (MaxIterations (config ?stopped))"
    by (simp add: example_agent_def New_def example_config_def)
  have nc: "\<not> ctx_Done ?env []"
    by (simp add: example_env_def)
  have c: "capture_CaptureAndEncode ?env [] = (Inr ''c2NyZWVu'', [''capture''])"
    by (simp add: example_env_def)
  have s: "step ?env ?stopped [] = ((True, None), ?completed, [''capture'', ''decide''])"
    using c example_GetAction_done [of "client ?stopped" "goal ?stopped" "''c2NyZWVu''"
        "GetLLMHistory (history ?stopped)"]
    by (simp add: step_def zero_Action_def ActionType_defs)
  have e3: "exec ?env ''g'' (LoopTop 0, ?stopped, [])
              (Deferred None, ?completed, [''capture'', ''decide''])"
    by (rule step_done [OF lt nc s])
  have "Run_deferred ?completed = ?completed"
    by (simp add: Run_deferred_def)
  then have e4: "exec ?env ''g'' (Deferred None, ?completed, [''capture'', ''decide''])
              (Returned None, ?completed, [''capture'', ''decide''])"
    using deferred [of ?env "''g''" None ?completed "[''capture'', ''decide'']"] by simp
  have t: "IsTerminal (state ?stopped)"
    by (simp add: IsTerminal_def)
  from e1 e2 have r1: "(exec ?env ''g'')\<^sup>*\<^sup>* (Entry, example_agent, []) (LoopTop 0, ?stopped, [])"
    by (meson rtranclp.rtrancl_into_rtrancl rtranclp.rtrancl_refl)
  from e3 e4 have r2: "(exec ?env ''g'')\<^sup>*\<^sup>* (LoopTop 0, ?stopped, [])
      (Returned None, ?completed, [''capture'', ''decide''])"
    by (meson rtranclp.rtrancl_into_rtrancl rtranclp.rtrancl_refl)
  from r1 t r2 s show ?thesis by blast
qed

end
